theory Spec2Isabelle
  imports Complex_Main
begin

section \<open>Memory, matrix views and buffers\<close>

text \<open>
  The decomposition strategies of \<^verbatim>\<open>anyode_decomposition.hpp\<close> and
  \<^verbatim>\<open>anyode_decomposition_lapack.hpp\<close> work on memory they do not own: the element
  storage behind a matrix view and the caller's vectors \<open>b\<close> and \<open>x\<close> are raw pointers.
  That memory is a store from addresses to values of the template parameter \<open>Real_t\<close>
  (the type variable \<open>'a\<close>); a pointer is an address and \<open>p[i]\<close> is the cell \<open>p + i\<close>.
  Next to the cells the memory keeps the log of the sizes requested from
  \<^verbatim>\<open>buffer_factory\<close>, in call order.

  \<open>Real_t\<close> is only required to have the operations the code uses (\<open>0\<close>, \<open>1\<close>, \<open>+\<close>,
  \<open>*\<close>, \<open>/\<close>, unary minus, \<open>fabs\<close>); no law of arithmetic is assumed by the
  definitions. Theorems about exact values are stated for a field (arithmetic without
  rounding).

  A value of the C++ type \<open>int\<close> is an integer. The constructor of \<open>SVD\<close> multiplies
  two of them: \<open>int\<close> is 32 bits wide, and a product that does not fit is kept modulo
  \<open>2^32\<close>, as the two's-complement multiplication of the compiled program leaves it
  (\<open>int_mul\<close>). The other computations in \<open>int\<close> (\<^verbatim>\<open>std::min\<close> of two dimensions, that
  minimum less 1, a loop counter running up to a dimension) stay within \<open>int\<close> for
  dimensions that are not negative.
\<close>

type_synonym addr = nat

definition int_wrap :: "int \<Rightarrow> int" where
  "int_wrap z = (z + 2 ^ 31) mod 2 ^ 32 - 2 ^ 31"

definition int_mul :: "int \<Rightarrow> int \<Rightarrow> int" where
  "int_mul a b = int_wrap (a * b)"

record 'a memory =
  cells :: "addr \<Rightarrow> 'a"
  allocs :: "nat list"

definition read_range :: "(addr \<Rightarrow> 'a) \<Rightarrow> addr \<Rightarrow> nat \<Rightarrow> 'a list" where
  "read_range h p n = map (\<lambda>i. h (p + i)) [0..<n]"

definition write_range :: "(addr \<Rightarrow> 'a) \<Rightarrow> addr \<Rightarrow> 'a list \<Rightarrow> addr \<Rightarrow> 'a" where
  "write_range h p vs = (\<lambda>a. if p \<le> a \<and> a < p + length vs then vs ! (a - p) else h a)"

text \<open>Two address ranges \<open>[p, p + n)\<close> and \<open>[q, q + m)\<close> that do not overlap.\<close>

definition separate :: "addr \<Rightarrow> nat \<Rightarrow> addr \<Rightarrow> nat \<Rightarrow> bool" where
  "separate p n q m = (p + n \<le> q \<or> q + m \<le> p)"

text \<open>
  Modelled from the spec: \<^verbatim>\<open>anyode_matrix.hpp\<close> is not among the sources. A matrix view
  is a non-owning description of storage: a pointer to the elements, the row and column
  counts and the leading dimension, under the member names the strategies read
  (\<open>m_data\<close>, \<open>m_nr\<close>, \<open>m_nc\<close>, \<open>m_ld\<close>); the banded view adds the lower and upper
  bandwidths \<open>m_kl\<close> and \<open>m_ku\<close>. Dense and diagonal views carry the base members only.
\<close>

record MatrixBase =
  m_data :: addr
  m_nr :: int
  m_nc :: int
  m_ld :: int

type_synonym DenseMatrix = MatrixBase

type_synonym DiagonalMatrix = MatrixBase

record BandedMatrix = MatrixBase +
  m_kl :: int
  m_ku :: int

section \<open>A \<open>Real_t\<close> with the values of a division by zero\<close>

text \<open>
  For a floating-point \<open>Real_t\<close> a division by zero is not an error: it yields an
  infinity or a NaN, which later operations carry along. The type \<open>xreal\<close> is such a
  \<open>Real_t\<close> at exact precision: the real numbers with the two infinities and NaN, and the
  arithmetic of IEEE 754 on them. Rounding and the sign of zero are not modelled. It is
  used where a statement depends on what a division by zero produces; in a HOL field
  \<open>a / 0 = 0\<close>, which no \<open>Real_t\<close> of the program does.
\<close>

datatype xreal = Fin real | PInf | MInf | NaN

definition xinf :: "real \<Rightarrow> xreal" where
  "xinf s = (if 0 < s then PInf else if s < 0 then MInf else NaN)"

fun xplus :: "xreal \<Rightarrow> xreal \<Rightarrow> xreal" where
  "xplus (Fin a) (Fin b) = Fin (a + b)"
| "xplus NaN _ = NaN"
| "xplus _ NaN = NaN"
| "xplus PInf MInf = NaN"
| "xplus MInf PInf = NaN"
| "xplus PInf _ = PInf"
| "xplus _ PInf = PInf"
| "xplus MInf _ = MInf"
| "xplus _ MInf = MInf"

fun xtimes :: "xreal \<Rightarrow> xreal \<Rightarrow> xreal" where
  "xtimes (Fin a) (Fin b) = Fin (a * b)"
| "xtimes NaN _ = NaN"
| "xtimes _ NaN = NaN"
| "xtimes (Fin a) PInf = xinf a"
| "xtimes (Fin a) MInf = xinf (- a)"
| "xtimes PInf (Fin b) = xinf b"
| "xtimes MInf (Fin b) = xinf (- b)"
| "xtimes PInf PInf = PInf"
| "xtimes PInf MInf = MInf"
| "xtimes MInf PInf = MInf"
| "xtimes MInf MInf = PInf"

fun xdivide :: "xreal \<Rightarrow> xreal \<Rightarrow> xreal" where
  "xdivide (Fin a) (Fin b) = (if b = 0 then xinf a else Fin (a / b))"
| "xdivide NaN _ = NaN"
| "xdivide _ NaN = NaN"
| "xdivide (Fin a) _ = Fin 0"
| "xdivide PInf (Fin b) = (if 0 \<le> b then PInf else MInf)"
| "xdivide MInf (Fin b) = (if 0 \<le> b then MInf else PInf)"
| "xdivide _ _ = NaN"

fun xuminus :: "xreal \<Rightarrow> xreal" where
  "xuminus (Fin a) = Fin (- a)"
| "xuminus PInf = MInf"
| "xuminus MInf = PInf"
| "xuminus NaN = NaN"

fun xabs :: "xreal \<Rightarrow> xreal" where
  "xabs (Fin a) = Fin \<bar>a\<bar>"
| "xabs PInf = PInf"
| "xabs MInf = PInf"
| "xabs NaN = NaN"

instantiation xreal :: "{zero,one,plus,times,uminus,abs,inverse}"
begin

definition zero_xreal :: xreal where
  "zero_xreal = Fin 0"

definition one_xreal :: xreal where
  "one_xreal = Fin 1"

definition plus_xreal :: "xreal \<Rightarrow> xreal \<Rightarrow> xreal" where
  "plus_xreal = xplus"

definition times_xreal :: "xreal \<Rightarrow> xreal \<Rightarrow> xreal" where
  "times_xreal = xtimes"

definition uminus_xreal :: "xreal \<Rightarrow> xreal" where
  "uminus_xreal = xuminus"

definition abs_xreal :: "xreal \<Rightarrow> xreal" where
  "abs_xreal = xabs"

definition divide_xreal :: "xreal \<Rightarrow> xreal \<Rightarrow> xreal" where
  "divide_xreal = xdivide"

definition inverse_xreal :: "xreal \<Rightarrow> xreal" where
  "inverse_xreal = xdivide (Fin 1)"

instance ..

end

lemmas xreal_arith =
  zero_xreal_def one_xreal_def plus_xreal_def times_xreal_def uminus_xreal_def
  abs_xreal_def divide_xreal_def inverse_xreal_def xinf_def

section \<open>DiagonalInv\<close>

record DiagonalInv =
  m_view :: DiagonalMatrix

definition DiagonalInv_ctor :: "DiagonalMatrix \<Rightarrow> DiagonalInv" where
  "DiagonalInv_ctor view = \<lparr>m_view = view\<rparr>"

text \<open>
  \<^verbatim>\<open>for (int i=0; i < m_view->m_nc; ++i) m_view->m_data[i] = 1/m_view->m_data[i]; return 0;\<close>
\<close>

definition DiagonalInv_factorize ::
  "DiagonalInv \<Rightarrow> ('a::{one,inverse}) memory \<Rightarrow> int \<times> DiagonalInv \<times> 'a memory" where
  "DiagonalInv_factorize d w =
     (let v = DiagonalInv.m_view d in
      (0, d,
       w\<lparr>cells := fold (\<lambda>i h. h(m_data v + i := 1 / h (m_data v + i)))
                       [0..<nat (m_nc v)] (cells w)\<rparr>))"

text \<open>
  \<^verbatim>\<open>for (int i=0; i < m_view->m_nc; ++i) x[i] = m_view->m_data[i]*b[i]; return 0;\<close>
\<close>

definition DiagonalInv_solve ::
  "DiagonalInv \<Rightarrow> addr \<Rightarrow> addr \<Rightarrow> ('a::times) memory \<Rightarrow> int \<times> DiagonalInv \<times> 'a memory" where
  "DiagonalInv_solve d b x w =
     (let v = DiagonalInv.m_view d in
      (0, d,
       w\<lparr>cells := fold (\<lambda>i h. h(x + i := h (m_data v + i) * h (b + i)))
                       [0..<nat (m_nc v)] (cells w)\<rparr>))"

section \<open>Workspace buffers and the numeric backend\<close>

text \<open>
  Modelled from the spec: \<^verbatim>\<open>anyode_buffer.hpp\<close> is not among the sources.
  \<open>buffer_factory n\<close> allocates a buffer of \<open>n\<close> elements that its holder owns, so a
  buffer is a list, and its length is the size it was allocated with. Every request is
  appended to the allocation log of the memory. The spec leaves the initial contents open;
  they are taken as zeros.
\<close>

definition buffer_factory :: "nat \<Rightarrow> 'a memory \<Rightarrow> ('b::zero) list \<times> 'a memory" where
  "buffer_factory n w = (replicate n 0, w\<lparr>allocs := allocs w @ [n]\<rparr>)"

text \<open>
  A backend routine that is handed the raw pointer of a buffer writes into the buffer; it
  cannot change the buffer's size. \<open>overwrite buf vs\<close> is \<open>buf\<close> after its leading
  elements were replaced by those of \<open>vs\<close>.
\<close>

definition overwrite :: "'b list \<Rightarrow> 'b list \<Rightarrow> 'b list" where
  "overwrite buf vs = take (length buf) vs @ drop (length vs) buf"

text \<open>
  \<^verbatim>\<open>std::copy(first, first + n, d_first)\<close>: element by element, front to back.
\<close>

definition std_copy :: "(addr \<Rightarrow> 'a) \<Rightarrow> addr \<Rightarrow> nat \<Rightarrow> addr \<Rightarrow> addr \<Rightarrow> 'a" where
  "std_copy h first n d_first = fold (\<lambda>i h. h(d_first + i := h (first + i))) [0..<n] h"

text \<open>
  An access outside a buffer is undefined behaviour in C++; in the model it is the
  result \<open>Inl OutOfBounds\<close>. A backend routine called with an argument its interface
  forbids reports \<open>Inl IllegalArgument\<close>.
\<close>

datatype fault = OutOfBounds | IllegalArgument

text \<open>
  Modelled from the spec: the numeric backend (\<^verbatim>\<open>anyode_blas_lapack.hpp\<close> and the
  library behind it) is not among the sources. Section 6 of the spec gives it as a set of
  typed primitives with the conventional dense and banded linear-algebra signatures. The
  factorization and solve primitives are parameters of the model: each is a function from
  the arrays and scalars the routine reads to the arrays it writes and its \<open>info\<close>.
  Which arguments are read and which are written is the interface of the routines:
  \<^item> \<open>getrf m n a lda\<close> returns the overwritten \<open>a\<close>, the pivots and \<open>info\<close>;
  \<^item> \<open>getrs tr n nrhs a lda ipiv b ldb\<close> (\<open>tr\<close> is the argument \<open>trans\<close>) returns the
    overwritten \<open>b\<close> and \<open>info\<close>;
  \<^item> \<open>gbtrf m n kl ku ab ldab\<close> and \<open>gbtrs tr n kl ku nrhs ab ldab ipiv b ldb\<close>
    likewise, on packed banded storage;
  \<^item> \<open>gesvd jobu jobvt m n a lda ldu ldvt lwork\<close> returns the overwritten \<open>a\<close>, the
    singular values \<open>s\<close>, \<open>u\<close>, \<open>vt\<close>, the work array and \<open>info\<close>;
  \<^item> \<open>gesvd_query jobu jobvt m n lda ldu ldvt\<close> is the same routine called with
    \<open>lwork = -1\<close>, the workspace query: it writes only the first element of the work
    array (the optimal size) and \<open>info\<close>.
  \<open>static_cast_int\<close> is the conversion \<^verbatim>\<open>static_cast<int>\<close> from \<open>Real_t\<close>.
\<close>

record 'a backend =
  getrf :: "int \<Rightarrow> int \<Rightarrow> 'a list \<Rightarrow> int \<Rightarrow> 'a list \<times> int list \<times> int"
  getrs :: "char \<Rightarrow> int \<Rightarrow> int \<Rightarrow> 'a list \<Rightarrow> int \<Rightarrow> int list \<Rightarrow> 'a list \<Rightarrow> int \<Rightarrow> 'a list \<times> int"
  gbtrf :: "int \<Rightarrow> int \<Rightarrow> int \<Rightarrow> int \<Rightarrow> 'a list \<Rightarrow> int \<Rightarrow> 'a list \<times> int list \<times> int"
  gbtrs :: "char \<Rightarrow> int \<Rightarrow> int \<Rightarrow> int \<Rightarrow> int \<Rightarrow> 'a list \<Rightarrow> int \<Rightarrow> int list \<Rightarrow> 'a list \<Rightarrow> int
            \<Rightarrow> 'a list \<times> int"
  gesvd :: "char \<Rightarrow> char \<Rightarrow> int \<Rightarrow> int \<Rightarrow> 'a list \<Rightarrow> int \<Rightarrow> int \<Rightarrow> int \<Rightarrow> int
            \<Rightarrow> 'a list \<times> 'a list \<times> 'a list \<times> 'a list \<times> 'a list \<times> int"
  gesvd_query :: "char \<Rightarrow> char \<Rightarrow> int \<Rightarrow> int \<Rightarrow> int \<Rightarrow> int \<Rightarrow> int \<Rightarrow> 'a \<times> int"
  static_cast_int :: "'a \<Rightarrow> int"

text \<open>
  Modelled from the spec: the general matrix-vector product \<open>gemv\<close> (with a transpose
  flag), after the reference BLAS, for unit strides (\<open>incx = incy = 1\<close> at both calls of
  the program, so the strides are left out). \<open>a\<close> is column-major with leading dimension
  \<open>lda\<close>; the routine reads \<open>a[i + j * lda]\<close> for \<open>i < m\<close>, \<open>j < n\<close>. Without
  transposition \<open>y := alpha * A * x + beta * y\<close> reads \<open>n\<close> elements of \<open>x\<close> and writes
  \<open>m\<close> of \<open>y\<close>; transposed, \<open>y := alpha * A\<^sup>T * x + beta * y\<close> reads \<open>m\<close> elements of \<open>x\<close>
  and writes \<open>n\<close> of \<open>y\<close>. With \<open>beta = 0\<close> the old \<open>y\<close> is not read, and with
  \<open>alpha = 0\<close> neither \<open>a\<close> nor \<open>x\<close> is. An operand shorter than the part of it the
  routine accesses is an access out of bounds.
\<close>

definition gemv_scale :: "('a::{zero,one,times}) \<Rightarrow> 'a \<Rightarrow> 'a" where
  "gemv_scale beta yj = (if beta = 0 then 0 else if beta = 1 then yj else beta * yj)"

definition gemv_T :: "nat \<Rightarrow> nat \<Rightarrow> ('a::{zero,one,plus,times}) \<Rightarrow> 'a list \<Rightarrow> nat \<Rightarrow> 'a list
                      \<Rightarrow> 'a \<Rightarrow> 'a list \<Rightarrow> 'a list" where
  "gemv_T m n alpha a lda x beta y =
     map (\<lambda>j. gemv_scale beta (y ! j) +
               alpha * foldl (\<lambda>temp i. temp + a ! (i + j * lda) * x ! i) 0 [0..<m]) [0..<n]
     @ drop n y"

definition gemv_N :: "nat \<Rightarrow> nat \<Rightarrow> ('a::{zero,one,plus,times}) \<Rightarrow> 'a list \<Rightarrow> nat \<Rightarrow> 'a list
                      \<Rightarrow> 'a \<Rightarrow> 'a list \<Rightarrow> 'a list" where
  "gemv_N m n alpha a lda x beta y =
     map (\<lambda>i. foldl (\<lambda>yi j. yi + (alpha * x ! j) * a ! (i + j * lda))
                 (gemv_scale beta (y ! i)) [0..<n]) [0..<m]
     @ drop m y"

definition gemv :: "char \<Rightarrow> int \<Rightarrow> int \<Rightarrow> ('a::{zero,one,plus,times}) \<Rightarrow> 'a list \<Rightarrow> int \<Rightarrow> 'a list
                    \<Rightarrow> 'a \<Rightarrow> 'a list \<Rightarrow> fault + 'a list" where
  "gemv tr m n alpha a lda x beta y =
     (if tr \<notin> set ''NnTtCc'' \<or> m < 0 \<or> n < 0 \<or> lda < max 1 m then Inl IllegalArgument
      else if m = 0 \<or> n = 0 \<or> (alpha = 0 \<and> beta = 1) then Inr y
      else
        let lenx = (if tr \<in> set ''Nn'' then nat n else nat m);
            leny = (if tr \<in> set ''Nn'' then nat m else nat n)
        in if length y < leny then Inl OutOfBounds
           else if alpha = 0 then Inr (map (gemv_scale beta) (take leny y) @ drop leny y)
           else if length x < lenx \<or> length a < nat (m + (n - 1) * lda) then Inl OutOfBounds
           else if tr \<in> set ''Nn''
                then Inr (gemv_N (nat m) (nat n) alpha a (nat lda) x beta y)
                else Inr (gemv_T (nat m) (nat n) alpha a (nat lda) x beta y))"

section \<open>DenseLU\<close>

record DenseLU =
  m_view :: DenseMatrix
  m_ipiv :: "int list"

definition DenseLU_ctor :: "DenseMatrix \<Rightarrow> 'a memory \<Rightarrow> DenseLU \<times> 'a memory" where
  "DenseLU_ctor view w =
     (let (ipiv, w') = buffer_factory (nat (m_nr view)) w
      in (\<lparr>DenseLU.m_view = view, m_ipiv = ipiv\<rparr>, w'))"

definition DenseLU_factorize ::
  "'a backend \<Rightarrow> DenseLU \<Rightarrow> 'a memory \<Rightarrow> int \<times> DenseLU \<times> 'a memory" where
  "DenseLU_factorize be lu w =
     (let v = DenseLU.m_view lu;
          na = nat (m_ld v * m_nc v);
          (a', ipiv', info) =
             getrf be (m_nr v) (m_nc v) (read_range (cells w) (m_data v) na) (m_ld v)
      in (info,
          lu\<lparr>m_ipiv := overwrite (DenseLU.m_ipiv lu) ipiv'\<rparr>,
          w\<lparr>cells := write_range (cells w) (m_data v) (take na a')\<rparr>))"

definition DenseLU_solve ::
  "'a backend \<Rightarrow> DenseLU \<Rightarrow> addr \<Rightarrow> addr \<Rightarrow> 'a memory \<Rightarrow> int \<times> DenseLU \<times> 'a memory" where
  "DenseLU_solve be lu b x w =
     (let v = DenseLU.m_view lu;
          tr = CHR ''N'';
          nrhs = 1;
          h = std_copy (cells w) b (nat (m_nr v)) x;
          (x', info) =
             getrs be tr (m_nr v) nrhs (read_range h (m_data v) (nat (m_ld v * m_nc v)))
               (m_ld v) (DenseLU.m_ipiv lu) (read_range h x (nat (m_nr v))) (m_nr v)
      in (info, lu, w\<lparr>cells := write_range h x (take (nat (m_nr v)) x')\<rparr>))"

section \<open>BandedLU\<close>

record BandedLU =
  m_view :: BandedMatrix
  m_ipiv :: "int list"

definition BandedLU_ctor :: "BandedMatrix \<Rightarrow> 'a memory \<Rightarrow> BandedLU \<times> 'a memory" where
  "BandedLU_ctor view w =
     (let (ipiv, w') = buffer_factory (nat (m_nr view)) w
      in (\<lparr>BandedLU.m_view = view, m_ipiv = ipiv\<rparr>, w'))"

definition BandedLU_factorize ::
  "'a backend \<Rightarrow> BandedLU \<Rightarrow> 'a memory \<Rightarrow> int \<times> BandedLU \<times> 'a memory" where
  "BandedLU_factorize be lu w =
     (let v = BandedLU.m_view lu;
          na = nat (m_ld v * m_nc v);
          (a', ipiv', info) =
             gbtrf be (m_nr v) (m_nc v) (m_kl v) (m_ku v)
               (read_range (cells w) (m_data v) na) (m_ld v)
      in (info,
          lu\<lparr>m_ipiv := overwrite (BandedLU.m_ipiv lu) ipiv'\<rparr>,
          w\<lparr>cells := write_range (cells w) (m_data v) (take na a')\<rparr>))"

definition BandedLU_solve ::
  "'a backend \<Rightarrow> BandedLU \<Rightarrow> addr \<Rightarrow> addr \<Rightarrow> 'a memory \<Rightarrow> int \<times> BandedLU \<times> 'a memory" where
  "BandedLU_solve be lu b x w =
     (let v = BandedLU.m_view lu;
          tr = CHR ''N'';
          nrhs = 1;
          h = std_copy (cells w) b (nat (m_nr v)) x;
          (x', info) =
             gbtrs be tr (m_nr v) (m_kl v) (m_ku v) nrhs
               (read_range h (m_data v) (nat (m_ld v * m_nc v))) (m_ld v)
               (BandedLU.m_ipiv lu) (read_range h x (nat (m_nr v))) (m_nr v)
      in (info, lu, w\<lparr>cells := write_range h x (take (nat (m_nr v)) x')\<rparr>))"

section \<open>SVD\<close>

record 'a SVD =
  m_view :: DenseMatrix
  m_s :: "'a list"
  m_ldu :: int
  m_u :: "'a list"
  m_ldvt :: int
  m_vt :: "'a list"
  m_work :: "'a list"
  m_lwork :: int
  m_condition_number :: 'a

text \<open>
  The constructor allocates \<open>m_s\<close>, \<open>m_u\<close> and \<open>m_vt\<close> from the view's dimensions, asks
  the backend for the size of the work array (\<open>m_lwork\<close> is \<open>-1\<close> at that call, the
  query), and allocates \<open>m_work\<close> with the size returned. \<open>m_condition_number\<close> keeps its
  default member initializer \<open>-1\<close>. The sizes of \<open>m_u\<close> and \<open>m_vt\<close> are the \<open>int\<close>
  products \<^verbatim>\<open>m_ldu*(view->m_nr)\<close> and \<^verbatim>\<open>m_ldvt*(view->m_nc)\<close>.
\<close>

definition SVD_ctor ::
  "('a::{zero,one,uminus}) backend \<Rightarrow> DenseMatrix \<Rightarrow> 'a memory \<Rightarrow> 'a SVD \<times> 'a memory" where
  "SVD_ctor be view w =
     (let (s, w1) = buffer_factory (nat (min (m_nr view) (m_nc view))) w;
          ldu = m_nr view;
          (u, w2) = buffer_factory (nat (int_mul ldu (m_nr view))) w1;
          ldvt = m_nc view;
          (vt, w3) = buffer_factory (nat (int_mul ldvt (m_nc view))) w2;
          mode = CHR ''A'';
          (optim_work_size, info) =
             gesvd_query be mode mode (m_nr view) (m_nc view) (m_ld view) ldu ldvt;
          lwork = static_cast_int be optim_work_size;
          (work, w4) = buffer_factory (nat lwork) w3
      in (\<lparr>SVD.m_view = view, m_s = s, m_ldu = ldu, m_u = u, m_ldvt = ldvt, m_vt = vt,
           m_work = work, m_lwork = lwork, m_condition_number = - 1\<rparr>, w4))"

text \<open>
  \<open>factorize\<close>: the backend writes the factors into the buffers and overwrites the view's
  storage; then
  \<^verbatim>\<open>m_condition_number = std::fabs(m_s[0]/m_s[std::min(m_view->m_nr, m_view->m_nc) - 1]);\<close>
\<close>

definition SVD_factorize ::
  "('a::{inverse,abs}) backend \<Rightarrow> 'a SVD \<Rightarrow> 'a memory \<Rightarrow> fault + (int \<times> 'a SVD \<times> 'a memory)" where
  "SVD_factorize be svd w =
     (let v = SVD.m_view svd;
          na = nat (m_ld v * m_nc v);
          mode = CHR ''A'';
          (a', s', u', vt', work', info) =
             gesvd be mode mode (m_nr v) (m_nc v) (read_range (cells w) (m_data v) na) (m_ld v)
               (m_ldu svd) (m_ldvt svd) (m_lwork svd);
          svd1 = svd\<lparr>m_s := overwrite (m_s svd) s', m_u := overwrite (m_u svd) u',
                     m_vt := overwrite (m_vt svd) vt', m_work := overwrite (m_work svd) work'\<rparr>;
          w1 = w\<lparr>cells := write_range (cells w) (m_data v) (take na a')\<rparr>;
          k = min (m_nr v) (m_nc v) - 1
      in if 0 < length (m_s svd1) \<and> 0 \<le> k \<and> nat k < length (m_s svd1)
         then Inr (info,
                   svd1\<lparr>m_condition_number := \<bar>m_s svd1 ! 0 / m_s svd1 ! nat k\<bar>\<rparr>,
                   w1)
         else Inl OutOfBounds)"

text \<open>
  The loop of \<open>solve\<close>:
  \<^verbatim>\<open>for (int i=0; i < m_view->m_nr; ++i) y1[i] /= m_s[i];\<close>
\<close>

definition SVD_solve_loop :: "nat \<Rightarrow> ('a::inverse) list \<Rightarrow> 'a list \<Rightarrow> fault + 'a list" where
  "SVD_solve_loop nr s y1 =
     fold (\<lambda>i r. case r of
                    Inl e \<Rightarrow> Inl e
                  | Inr y \<Rightarrow> if i < length y \<and> i < length s
                             then Inr (y[i := y ! i / s ! i]) else Inl OutOfBounds)
          [0..<nr] (Inr y1)"

definition SVD_solve ::
  "('a::{zero,one,plus,times,inverse}) SVD \<Rightarrow> addr \<Rightarrow> addr \<Rightarrow> 'a memory
   \<Rightarrow> fault + (int \<times> 'a SVD \<times> 'a memory)" where
  "SVD_solve svd b x w =
     (let v = SVD.m_view svd;
          alpha = 1;
          beta = 0;
          tr = CHR ''T'';
          (y1, w1) = buffer_factory (nat (m_nr v)) w
      in case gemv tr (m_nr v) (m_nr v) alpha (m_u svd) (m_ldu svd)
                (read_range (cells w1) b (nat (m_nr v))) beta y1 of
           Inl e \<Rightarrow> Inl e
         | Inr y1a \<Rightarrow>
            (case SVD_solve_loop (nat (m_nr v)) (m_s svd) y1a of
               Inl e \<Rightarrow> Inl e
             | Inr y1b \<Rightarrow>
                (case gemv tr (m_nc v) (m_nc v) alpha (m_vt svd) (m_ldvt svd) y1b beta
                        (read_range (cells w1) x (nat (m_nc v))) of
                   Inl e \<Rightarrow> Inl e
                 | Inr x' \<Rightarrow> Inr (0, svd, w1\<lparr>cells := write_range (cells w1) x x'\<rparr>))))"

text \<open>
  A caller that, after constructing an \<open>SVD\<close>, only calls \<open>solve\<close>, once for each pair
  \<open>(b, x)\<close> of the list, and stops at the first fault.
\<close>

fun SVD_solve_calls ::
  "('a::{zero,one,plus,times,inverse}) SVD \<Rightarrow> (addr \<times> addr) list \<Rightarrow> 'a memory
   \<Rightarrow> fault + ('a SVD \<times> 'a memory)" where
  "SVD_solve_calls svd [] w = Inr (svd, w)"
| "SVD_solve_calls svd ((b, x) # calls) w =
     (case SVD_solve svd b x w of
        Inl e \<Rightarrow> Inl e
      | Inr (st, svd', w') \<Rightarrow> SVD_solve_calls svd' calls w')"

text \<open>The sizes of the four member buffers of an \<open>SVD\<close>.\<close>

definition SVD_buffer_sizes :: "'a SVD \<Rightarrow> nat list" where
  "SVD_buffer_sizes svd = [length (m_s svd), length (m_u svd), length (m_vt svd), length (m_work svd)]"

text \<open>
  The sizes the constructor gives the buffers of an \<open>SVD\<close> over its view, and the two
  leading dimensions.
\<close>

definition SVD_sized :: "'a SVD \<Rightarrow> bool" where
  "SVD_sized svd =
     (m_ldu svd = m_nr (SVD.m_view svd) \<and> m_ldvt svd = m_nc (SVD.m_view svd)
      \<and> length (m_s svd) = nat (min (m_nr (SVD.m_view svd)) (m_nc (SVD.m_view svd)))
      \<and> length (m_u svd) = nat (int_mul (m_nr (SVD.m_view svd)) (m_nr (SVD.m_view svd)))
      \<and> length (m_vt svd) = nat (int_mul (m_nc (SVD.m_view svd)) (m_nc (SVD.m_view svd))))"






section \<open>Factorize then solve, on dense and on packed banded storage\<close>

text \<open>
  The use of a strategy: construct it over a view, \<open>factorize\<close>, then \<open>solve(b, x)\<close>.
  The result is the status of \<open>factorize\<close>, the status of \<open>solve\<close> and the memory
  afterwards.
\<close>

definition DenseLU_run ::
  "'a backend \<Rightarrow> DenseMatrix \<Rightarrow> addr \<Rightarrow> addr \<Rightarrow> 'a memory \<Rightarrow> int \<times> int \<times> 'a memory" where
  "DenseLU_run be view b x w =
     (let (lu, w1) = DenseLU_ctor view w;
          (info, lu1, w2) = DenseLU_factorize be lu w1;
          (st, lu2, w3) = DenseLU_solve be lu1 b x w2
      in (info, st, w3))"

definition BandedLU_run ::
  "'a backend \<Rightarrow> BandedMatrix \<Rightarrow> addr \<Rightarrow> addr \<Rightarrow> 'a memory \<Rightarrow> int \<times> int \<times> 'a memory" where
  "BandedLU_run be view b x w =
     (let (lu, w1) = BandedLU_ctor view w;
          (info, lu1, w2) = BandedLU_factorize be lu w1;
          (st, lu2, w3) = BandedLU_solve be lu1 b x w2
      in (info, st, w3))"

text \<open>
  What the storage behind a view denotes. Dense storage is column-major: the entry
  \<open>(i, k)\<close> is the element \<open>i + k * lda\<close>. Packed banded storage, as \<open>gbtrf\<close> takes it,
  keeps the entry \<open>(i, k)\<close> of the band (\<open>k - ku \<le> i \<le> k + kl\<close>) in the storage row
  \<open>kl + ku + i - k\<close> of the column \<open>k\<close>, below \<open>kl\<close> rows left free for the fill-in of
  the factorization; outside the band the matrix is zero. Rows and columns count from 0.
\<close>

definition dense_entry :: "'a list \<Rightarrow> nat \<Rightarrow> nat \<Rightarrow> nat \<Rightarrow> 'a" where
  "dense_entry a lda i k = a ! (i + k * lda)"

definition band_entry :: "nat \<Rightarrow> nat \<Rightarrow> ('a::zero) list \<Rightarrow> nat \<Rightarrow> nat \<Rightarrow> nat \<Rightarrow> 'a" where
  "band_entry kl ku ab ldab i k =
     (if i \<le> k + kl \<and> k \<le> i + ku then ab ! (kl + ku + i - k + k * ldab) else 0)"

text \<open>
  \<open>solves n A x b\<close>: the vector \<open>x\<close> satisfies the \<open>n\<close> equations \<open>A x = b\<close>;
  \<open>unique_solution n A x b\<close>: it has length \<open>n\<close> and is the only such vector.
\<close>

definition solves :: "nat \<Rightarrow> (nat \<Rightarrow> nat \<Rightarrow> 'a::comm_semiring_0) \<Rightarrow> 'a list \<Rightarrow> 'a list \<Rightarrow> bool" where
  "solves n A x b = (\<forall>i<n. (\<Sum>k<n. A i k * x ! k) = b ! i)"

definition unique_solution ::
  "nat \<Rightarrow> (nat \<Rightarrow> nat \<Rightarrow> 'a::comm_semiring_0) \<Rightarrow> 'a list \<Rightarrow> 'a list \<Rightarrow> bool" where
  "unique_solution n A x b =
     (length x = n \<and> solves n A x b \<and> (\<forall>y. length y = n \<and> solves n A y b \<longrightarrow> y = x))"

text \<open>
  Modelled from the spec: the LU routines of the numeric backend are not among the
  sources. Sections 4.2, 4.3 and 8 of the spec give their contract: the factorization
  reports status 0 on success and a nonzero status for an exactly singular matrix, after
  which the result of a solve is unspecified; after a successful factorization the solve
  routine, handed the factors, the pivots and a right-hand side \<open>b\<close>, overwrites \<open>b\<close>
  with the solution of \<open>A x = b\<close>, where \<open>A\<close> is the matrix the storage denoted before
  it was factorized. In arithmetic without rounding a matrix that factorizes is
  nonsingular, so that solution is the only one. The factorization overwrites the storage
  in place (same size) and writes one pivot for each row. The contract is stated for
  square matrices, once for the dense pair \<open>getrf\<close>, \<open>getrs\<close> and once for the banded pair
  \<open>gbtrf\<close>, \<open>gbtrs\<close>, whose leading dimension has to make room for \<open>2 * kl + ku + 1\<close>
  storage rows.
\<close>

definition getrf_getrs_contract :: "('a::comm_semiring_0) backend \<Rightarrow> bool" where
  "getrf_getrs_contract be =
     (\<forall>n lda a b a' ipiv.
        0 < n \<and> n \<le> lda \<and> length a = nat (lda * n) \<and> length b = nat n \<and>
        getrf be n n a lda = (a', ipiv, 0) \<longrightarrow>
        length a' = length a \<and> length ipiv = nat n \<and>
        unique_solution (nat n) (dense_entry a (nat lda))
          (take (nat n) (fst (getrs be CHR ''N'' n 1 a' lda ipiv b n))) b)"

definition gbtrf_gbtrs_contract :: "('a::comm_semiring_0) backend \<Rightarrow> bool" where
  "gbtrf_gbtrs_contract be =
     (\<forall>n kl ku ldab ab b ab' ipiv.
        0 < n \<and> 0 \<le> kl \<and> 0 \<le> ku \<and> 2 * kl + ku + 1 \<le> ldab \<and>
        length ab = nat (ldab * n) \<and> length b = nat n \<and>
        gbtrf be n n kl ku ab ldab = (ab', ipiv, 0) \<longrightarrow>
        length ab' = length ab \<and> length ipiv = nat n \<and>
        unique_solution (nat n) (band_entry (nat kl) (nat ku) ab (nat ldab))
          (take (nat n) (fst (gbtrs be CHR ''N'' n kl ku 1 ab' ldab ipiv b n))) b)"

text \<open>
  The dense view \<open>dv\<close> in the memory \<open>wd\<close> is the densified equivalent of the banded view
  \<open>bv\<close> in the memory \<open>wb\<close>: the same shape, and every cell of the dense storage holds
  the entry the packed storage denotes there (zero outside the band).
\<close>

definition densified :: "BandedMatrix \<Rightarrow> ('a::zero) memory \<Rightarrow> DenseMatrix \<Rightarrow> 'a memory \<Rightarrow> bool" where
  "densified bv wb dv wd =
     (m_nr dv = m_nr bv \<and> m_nc dv = m_nc bv \<and> m_nr bv \<le> m_ld dv \<and>
      (\<forall>i<nat (m_nr bv). \<forall>k<nat (m_nc bv).
         cells wd (m_data dv + (i + k * nat (m_ld dv))) =
         band_entry (nat (m_kl bv)) (nat (m_ku bv))
           (read_range (cells wb) (m_data bv) (nat (m_ld bv * m_nc bv))) (nat (m_ld bv)) i k))"

section \<open>Example instances\<close>

text \<open>
  A memory holding, from cell 0 on, the values of a list and 0 elsewhere, and a
  2-by-2 diagonal view over the cells 0 and 1.
\<close>

definition memory_of :: "('a::zero) list \<Rightarrow> 'a memory" where
  "memory_of vs = \<lparr>cells = (\<lambda>a. if a < length vs then vs ! a else 0), allocs = []\<rparr>"

definition diag_example :: DiagonalInv where
  "diag_example = \<lparr>DiagonalInv.m_view = \<lparr>m_data = 0, m_nr = 2, m_nc = 2, m_ld = 1\<rparr>\<rparr>"

definition diag_memory :: "rat memory" where
  "diag_memory = memory_of [2, 4, 6, 8, 0, 0]"

definition diag_memory_zero :: "xreal memory" where
  "diag_memory_zero = memory_of [Fin 0, Fin 4]"

text \<open>
  A backend for diagonal matrices (dense or banded storage) whose diagonal is positive and
  descending: the LU factorization of such a matrix is the matrix itself with the identity
  permutation, and its singular value decomposition has the diagonal as singular values
  and identity matrices as \<open>U\<close> and \<open>V\<^sup>T\<close>.
\<close>

definition identity_matrix :: "int \<Rightarrow> int \<Rightarrow> ('a::{zero,one}) list" where
  "identity_matrix n ld = map (\<lambda>k. if k mod nat ld = k div nat ld then 1 else 0) [0..<nat (ld * n)]"

definition backend_diagonal :: "rat backend" where
  "backend_diagonal =
     \<lparr>getrf = (\<lambda>m n a lda. (a, map (\<lambda>i. int i + 1) [0..<nat (min m n)], 0)),
      getrs = (\<lambda>tr n nrhs a lda ipiv b ldb.
                 (map (\<lambda>i. b ! i / a ! (i + i * nat lda)) [0..<nat n], 0)),
      gbtrf = (\<lambda>m n kl ku ab ldab. (ab, map (\<lambda>i. int i + 1) [0..<nat (min m n)], 0)),
      gbtrs = (\<lambda>tr n kl ku nrhs ab ldab ipiv b ldb.
                 (map (\<lambda>i. b ! i / ab ! (nat (kl + ku) + i * nat ldab)) [0..<nat n], 0)),
      gesvd = (\<lambda>jobu jobvt m n a lda ldu ldvt lwork.
                 (a, map (\<lambda>i. a ! (i + i * nat lda)) [0..<nat (min m n)],
                  identity_matrix m ldu, identity_matrix n ldvt, [of_int lwork], 0)),
      gesvd_query = (\<lambda>jobu jobvt m n lda ldu ldvt. (of_int (5 * max m n), 0)),
      static_cast_int = floor\<rparr>"

text \<open>
  The matrix \<open>diag(4, 2)\<close> as a dense 2-by-2 view over the cells 0 to 3 and as a banded
  view (\<open>m_kl = m_ku = 1\<close>, four storage rows) over the cells 0 to 7, the vector
  \<open>b = (8, 6)\<close> in the cells 8 and 9, and room for \<open>x\<close> in the cells 10 and 11.
\<close>

definition dense_view :: DenseMatrix where
  "dense_view = \<lparr>m_data = 0, m_nr = 2, m_nc = 2, m_ld = 2\<rparr>"

definition dense_memory :: "rat memory" where
  "dense_memory = memory_of [4, 0, 0, 2, 0, 0, 0, 0, 8, 6, 0, 0]"

definition banded_view :: BandedMatrix where
  "banded_view = \<lparr>m_data = 0, m_nr = 2, m_nc = 2, m_ld = 4, m_kl = 1, m_ku = 1\<rparr>"

definition banded_memory :: "rat memory" where
  "banded_memory = memory_of [0, 0, 4, 0, 0, 0, 2, 0, 8, 6, 0, 0]"

definition dense_lu :: DenseLU where
  "dense_lu = \<lparr>DenseLU.m_view = dense_view, m_ipiv = [1, 2]\<rparr>"

definition banded_lu :: BandedLU where
  "banded_lu = \<lparr>BandedLU.m_view = banded_view, m_ipiv = [1, 2]\<rparr>"

text \<open>The factorized \<open>SVD\<close> instance of \<open>diag(4, 2)\<close>.\<close>

definition dense_svd :: "rat SVD" where
  "dense_svd =
     \<lparr>SVD.m_view = dense_view, m_s = [4, 2], m_ldu = 2, m_u = [1, 0, 0, 1], m_ldvt = 2,
      m_vt = [1, 0, 0, 1], m_work = 10 # replicate 9 0, m_lwork = 10,
      m_condition_number = 2\<rparr>"

text \<open>
  The factorized \<open>SVD\<close> instance of the 1-by-1 matrix \<open>(0)\<close>, over a \<open>Real_t\<close> with
  infinities: its only singular value is 0. The view is the cell 0; the memory holds
  \<open>b = (1)\<close> in the cell 1 and room for \<open>x\<close> in the cell 2.
\<close>

definition singular_svd :: "xreal SVD" where
  "singular_svd =
     \<lparr>SVD.m_view = \<lparr>m_data = 0, m_nr = 1, m_nc = 1, m_ld = 1\<rparr>, m_s = [Fin 0], m_ldu = 1,
      m_u = [Fin 1], m_ldvt = 1, m_vt = [Fin 1], m_work = replicate 5 (Fin 0), m_lwork = 5,
      m_condition_number = NaN\<rparr>"


text \<open>
  An \<open>SVD\<close> as the constructor sizes it over a view with one row and two columns.
\<close>

definition wide_svd :: "rat SVD" where
  "wide_svd =
     \<lparr>SVD.m_view = \<lparr>m_data = 0, m_nr = 1, m_nc = 2, m_ld = 1\<rparr>, m_s = [1], m_ldu = 1,
      m_u = [1], m_ldvt = 2, m_vt = [1, 0, 0, 1], m_work = replicate 10 0, m_lwork = 10,
      m_condition_number = 1\<rparr>"

text \<open>
  A backend for 2-by-2 systems, by Cramer's rule: the factorization leaves the storage as
  it is and reports status 0 when the matrix is 2-by-2 with a nonzero determinant, status
  1 otherwise; the solve routine divides by the determinant. The other routines are those
  of \<open>backend_diagonal\<close>.
\<close>

definition det2 :: "(nat \<Rightarrow> nat \<Rightarrow> rat) \<Rightarrow> rat" where
  "det2 A = A 0 0 * A 1 1 - A 0 1 * A 1 0"

definition cramer2 :: "(nat \<Rightarrow> nat \<Rightarrow> rat) \<Rightarrow> rat list \<Rightarrow> rat list" where
  "cramer2 A b =
     [(A 1 1 * b ! 0 - A 0 1 * b ! 1) / det2 A, (A 0 0 * b ! 1 - A 1 0 * b ! 0) / det2 A]"

definition backend_two :: "rat backend" where
  "backend_two = backend_diagonal
     \<lparr>getrf := (\<lambda>m n a lda.
                 (a, [1, 2], if m = 2 \<and> n = 2 \<and> det2 (dense_entry a (nat lda)) \<noteq> 0 then 0 else 1)),
      getrs := (\<lambda>tr n nrhs a lda ipiv b ldb. (cramer2 (dense_entry a (nat lda)) b, 0)),
      gbtrf := (\<lambda>m n kl ku ab ldab.
                 (ab, [1, 2],
                  if m = 2 \<and> n = 2 \<and> det2 (band_entry (nat kl) (nat ku) ab (nat ldab)) \<noteq> 0
                  then 0 else 1)),
      gbtrs := (\<lambda>tr n kl ku nrhs ab ldab ipiv b ldb.
                 (cramer2 (band_entry (nat kl) (nat ku) ab (nat ldab)) b, 0))\<rparr>"

text \<open>
  The tridiagonal matrix with the rows \<open>(4, 1)\<close> and \<open>(2, 3)\<close>, dense over \<open>dense_view\<close>
  and packed over \<open>banded_view\<close>, with \<open>b = (9, 7)\<close> in the cells 8 and 9 and room for
  \<open>x\<close> in the cells 10 and 11.
\<close>

definition tridiagonal_dense_memory :: "rat memory" where
  "tridiagonal_dense_memory = memory_of [4, 2, 1, 3, 0, 0, 0, 0, 9, 7, 0, 0]"

definition tridiagonal_banded_memory :: "rat memory" where
  "tridiagonal_banded_memory = memory_of [0, 0, 4, 2, 0, 1, 3, 0, 9, 7, 0, 0]"

text \<open>
  The backend for diagonal matrices over the reals with infinities, and the matrix
  \<open>diag(4, 0)\<close> of rank one over \<open>dense_view\<close>: its singular values are \<open>(4, 0)\<close>.
  \<open>rank_one_svd\<close> is the \<open>SVD\<close> instance of that matrix after \<open>factorize\<close>.
\<close>

definition backend_xdiagonal :: "xreal backend" where
  "backend_xdiagonal =
     \<lparr>getrf = (\<lambda>m n a lda. (a, map (\<lambda>i. int i + 1) [0..<nat (min m n)], 0)),
      getrs = (\<lambda>tr n nrhs a lda ipiv b ldb.
                 (map (\<lambda>i. b ! i / a ! (i + i * nat lda)) [0..<nat n], 0)),
      gbtrf = (\<lambda>m n kl ku ab ldab. (ab, map (\<lambda>i. int i + 1) [0..<nat (min m n)], 0)),
      gbtrs = (\<lambda>tr n kl ku nrhs ab ldab ipiv b ldb.
                 (map (\<lambda>i. b ! i / ab ! (nat (kl + ku) + i * nat ldab)) [0..<nat n], 0)),
      gesvd = (\<lambda>jobu jobvt m n a lda ldu ldvt lwork.
                 (a, map (\<lambda>i. a ! (i + i * nat lda)) [0..<nat (min m n)],
                  identity_matrix m ldu, identity_matrix n ldvt, [Fin (of_int lwork)], 0)),
      gesvd_query = (\<lambda>jobu jobvt m n lda ldu ldvt. (Fin (of_int (5 * max m n)), 0)),
      static_cast_int = (\<lambda>v. case v of Fin r \<Rightarrow> \<lfloor>r\<rfloor> | _ \<Rightarrow> 0)\<rparr>"

definition rank_one_memory :: "xreal memory" where
  "rank_one_memory = memory_of [Fin 4, Fin 0, Fin 0, Fin 0]"

definition rank_one_svd :: "xreal SVD" where
  "rank_one_svd =
     \<lparr>SVD.m_view = dense_view, m_s = [Fin 4, Fin 0], m_ldu = 2, m_u = [1, 0, 0, 1], m_ldvt = 2,
      m_vt = [1, 0, 0, 1], m_work = Fin 10 # replicate 9 0, m_lwork = 10,
      m_condition_number = PInf\<rparr>"

section \<open>Products in \<open>int\<close>\<close>

lemma int_mul_fits: "- (2 ^ 31) \<le> a * b \<Longrightarrow> a * b < 2 ^ 31 \<Longrightarrow> int_mul a b = a * b"
  by (simp add: int_mul_def int_wrap_def)

lemma int_mul_square_fits: "n * n < 2 ^ 31 \<Longrightarrow> int_mul n n = n * n"
  by (rule int_mul_fits) (simp_all add: order_trans [of _ 0])

lemma int_mul_examples: "int_mul 1 1 = 1" "int_mul 2 2 = 4" "int_mul 65536 65536 = 0"
  by (simp_all add: int_mul_def int_wrap_def)

section \<open>Loops over a range of cells\<close>

lemma fold_upt_Suc: "fold F [0..<Suc n] h = F n (fold F [0..<n] h)"
  by simp

lemma fold_pointwise:
  "fold (\<lambda>i h. h(p + i := f (h (p + i)))) [0..<n] h =
     (\<lambda>a. if p \<le> a \<and> a < p + n then f (h a) else h a)"
proof (induction n)
  case 0
  show ?case by (auto simp: fun_eq_iff)
next
  case (Suc n)
  show ?case
    unfolding fold_upt_Suc Suc.IH by (auto simp: fun_eq_iff)
qed

lemma fold_product:
  assumes "separate x n p n" and "separate x n b n"
  shows "fold (\<lambda>i h. h(x + i := h (p + i) * h (b + i))) [0..<n] h =
           (\<lambda>a. if x \<le> a \<and> a < x + n then h (p + (a - x)) * h (b + (a - x)) else h a)"
  using assms
proof (induction n)
  case 0
  show ?case by (auto simp: fun_eq_iff)
next
  case (Suc n)
  have sp: "separate x n p n" and sb: "separate x n b n"
    using Suc.prems by (auto simp: separate_def)
  note IH = Suc.IH [OF sp sb]
  show ?case
    unfolding fold_upt_Suc IH using Suc.prems
    by (auto simp: fun_eq_iff separate_def)
qed

section \<open>DiagonalInv: factorize then solve\<close>

lemma DiagonalInv_factorize_cells:
  "cells (snd (snd (DiagonalInv_factorize d w))) =
     (\<lambda>a. if m_data (DiagonalInv.m_view d) \<le> a \<and>
              a < m_data (DiagonalInv.m_view d) + nat (m_nc (DiagonalInv.m_view d))
           then 1 / cells w a else cells w a)"
  by (simp add: DiagonalInv_factorize_def Let_def fold_pointwise)

lemma DiagonalInv_solve_cells:
  assumes "separate x (nat (m_nc (DiagonalInv.m_view d))) (m_data (DiagonalInv.m_view d))
             (nat (m_nc (DiagonalInv.m_view d)))"
    and "separate x (nat (m_nc (DiagonalInv.m_view d))) b (nat (m_nc (DiagonalInv.m_view d)))"
  shows "cells (snd (snd (DiagonalInv_solve d b x w))) =
     (\<lambda>a. if x \<le> a \<and> a < x + nat (m_nc (DiagonalInv.m_view d))
           then cells w (m_data (DiagonalInv.m_view d) + (a - x)) * cells w (b + (a - x))
           else cells w a)"
  by (simp add: DiagonalInv_solve_def Let_def fold_product [OF assms])

text \<open>
  C2. For a diagonal view whose entries are all nonzero and a vector \<open>b\<close>, where the
  storage of the view, \<open>b\<close> and \<open>x\<close> are three buffers that do not overlap, one call of
  \<open>factorize\<close> followed by \<open>solve(b, x)\<close> returns status 0 twice and leaves
  \<open>x[i] = b[i] / A[i][i]\<close> for every \<open>i < m_nc\<close>, in exact (field) arithmetic.
\<close>

theorem DiagonalInv_factorize_solve:
  fixes w :: "('a::field) memory"
  assumes nz: "\<forall>i < nat (m_nc (DiagonalInv.m_view d)).
                 cells w (m_data (DiagonalInv.m_view d) + i) \<noteq> 0"
    and sep_xA: "separate x (nat (m_nc (DiagonalInv.m_view d))) (m_data (DiagonalInv.m_view d))
                   (nat (m_nc (DiagonalInv.m_view d)))"
    and sep_xb: "separate x (nat (m_nc (DiagonalInv.m_view d))) b
                   (nat (m_nc (DiagonalInv.m_view d)))"
    and sep_bA: "separate b (nat (m_nc (DiagonalInv.m_view d))) (m_data (DiagonalInv.m_view d))
                   (nat (m_nc (DiagonalInv.m_view d)))"
    and fact: "DiagonalInv_factorize d w = (s1, d1, w1)"
    and solv: "DiagonalInv_solve d1 b x w1 = (s2, d2, w2)"
  shows "s1 = 0 \<and> s2 = 0 \<and>
         (\<forall>i < nat (m_nc (DiagonalInv.m_view d)).
            cells w2 (x + i) = cells w (b + i) / cells w (m_data (DiagonalInv.m_view d) + i))"
proof -
  let ?A = "m_data (DiagonalInv.m_view d)"
  let ?n = "nat (m_nc (DiagonalInv.m_view d))"
  have s1: "s1 = 0" and d1: "d1 = d"
    using fact by (simp_all add: DiagonalInv_factorize_def Let_def)
  have s2: "s2 = 0"
    using solv by (simp add: DiagonalInv_solve_def Let_def)
  have w1: "cells w1 = (\<lambda>a. if ?A \<le> a \<and> a < ?A + ?n then 1 / cells w a else cells w a)"
    using DiagonalInv_factorize_cells [of d w] unfolding fact by simp
  have w2: "cells w2 = (\<lambda>a. if x \<le> a \<and> a < x + ?n
                            then cells w1 (?A + (a - x)) * cells w1 (b + (a - x))
                            else cells w1 a)"
    using DiagonalInv_solve_cells [OF sep_xA sep_xb, of w1] unfolding d1 [symmetric] solv
    by simp
  have "cells w2 (x + i) = cells w (b + i) / cells w (?A + i)" if i: "i < ?n" for i
  proof -
    have nb: "\<not> (?A \<le> b + i \<and> b + i < ?A + ?n)"
      using sep_bA i by (auto simp: separate_def)
    have e: "cells w2 (x + i) = cells w1 (?A + i) * cells w1 (b + i)"
      using i by (simp add: w2)
    have a1: "cells w1 (?A + i) = 1 / cells w (?A + i)"
      using i by (simp add: w1)
    have a2: "cells w1 (b + i) = cells w (b + i)"
      by (simp only: w1 nb if_False)
    show ?thesis
      unfolding e a1 a2 by simp
  qed
  with s1 s2 show ?thesis by simp
qed

text \<open>
  The example: the solution of \<open>diag(2, 4) x = (6, 8)\<close> is \<open>(3, 2)\<close>, written to the
  cells 4 and 5.
\<close>

theorem DiagonalInv_factorize_solve_witness:
  "fst (DiagonalInv_factorize diag_example diag_memory) = 0
   \<and> cells (snd (snd (DiagonalInv_solve diag_example 2 4
                (snd (snd (DiagonalInv_factorize diag_example diag_memory)))))) (4 + 0) = 3
   \<and> cells (snd (snd (DiagonalInv_solve diag_example 2 4
                (snd (snd (DiagonalInv_factorize diag_example diag_memory)))))) (4 + 1) = 2"
proof -
  define d where "d = diag_example"
  define w where "w = diag_memory"
  have n: "nat (m_nc (DiagonalInv.m_view d)) = 2" and A: "m_data (DiagonalInv.m_view d) = 0"
    by (simp_all add: d_def diag_example_def)
  have less2: "i < 2 \<longleftrightarrow> i = 0 \<or> i = Suc 0" for i :: nat
    by auto
  have nz: "\<forall>i < nat (m_nc (DiagonalInv.m_view d)).
              cells w (m_data (DiagonalInv.m_view d) + i) \<noteq> 0"
    unfolding n A by (auto simp: w_def diag_memory_def memory_of_def less2)
  have sep: "separate 4 (nat (m_nc (DiagonalInv.m_view d))) (m_data (DiagonalInv.m_view d))
               (nat (m_nc (DiagonalInv.m_view d)))"
    "separate 4 (nat (m_nc (DiagonalInv.m_view d))) 2 (nat (m_nc (DiagonalInv.m_view d)))"
    "separate 2 (nat (m_nc (DiagonalInv.m_view d))) (m_data (DiagonalInv.m_view d))
               (nat (m_nc (DiagonalInv.m_view d)))"
    unfolding n A by (simp_all add: separate_def)
  have fd: "fst (snd (DiagonalInv_factorize d w)) = d"
    by (simp add: DiagonalInv_factorize_def Let_def)
  have fact: "DiagonalInv_factorize d w =
      (fst (DiagonalInv_factorize d w), d, snd (snd (DiagonalInv_factorize d w)))"
    using fd by (metis prod.collapse)
  have solv: "DiagonalInv_solve d 2 4 (snd (snd (DiagonalInv_factorize d w))) =
      (fst (DiagonalInv_solve d 2 4 (snd (snd (DiagonalInv_factorize d w)))),
       fst (snd (DiagonalInv_solve d 2 4 (snd (snd (DiagonalInv_factorize d w))))),
       snd (snd (DiagonalInv_solve d 2 4 (snd (snd (DiagonalInv_factorize d w))))))"
    by simp
  note r = DiagonalInv_factorize_solve [OF nz sep fact solv]
  have every: "\<forall>i<nat (m_nc (DiagonalInv.m_view d)).
       cells (snd (snd (DiagonalInv_solve d 2 4 (snd (snd (DiagonalInv_factorize d w)))))) (4 + i)
       = cells w (2 + i) / cells w (m_data (DiagonalInv.m_view d) + i)"
    using r by blast
  have r0: "cells (snd (snd (DiagonalInv_solve d 2 4 (snd (snd (DiagonalInv_factorize d w)))))) (4 + 0)
            = cells w (2 + 0) / cells w (m_data (DiagonalInv.m_view d) + 0)"
    by (rule every [rule_format]) (simp add: n)
  have r1: "cells (snd (snd (DiagonalInv_solve d 2 4 (snd (snd (DiagonalInv_factorize d w)))))) (4 + 1)
            = cells w (2 + 1) / cells w (m_data (DiagonalInv.m_view d) + 1)"
    by (rule every [rule_format]) (simp add: n)
  have "fst (DiagonalInv_factorize d w) = 0"
    using r by simp
  moreover have "cells (snd (snd (DiagonalInv_solve d 2 4 (snd (snd (DiagonalInv_factorize d w)))))) (4 + 0) = 3"
    unfolding r0 by (simp add: w_def d_def diag_memory_def memory_of_def diag_example_def)
  moreover have "cells (snd (snd (DiagonalInv_solve d 2 4 (snd (snd (DiagonalInv_factorize d w)))))) (4 + 1) = 2"
    unfolding r1 by (simp add: w_def d_def diag_memory_def memory_of_def diag_example_def)
  ultimately show ?thesis
    unfolding d_def w_def by blast
qed

text \<open>
  C3. \<open>DiagonalInv::factorize\<close> has no failure path and no test of the entries: for
  every view and every memory, whatever \<open>Real_t\<close> is and whatever the entries are (zero
  included), it returns status 0, leaves the strategy as it is, replaces each of the
  \<open>m_nc\<close> diagonal entries by \<open>1 / entry\<close> and touches no other cell;
  \<open>DiagonalInv::solve\<close> returns status 0 for every input.
\<close>

theorem DiagonalInv_status_always_zero:
  fixes w :: "('a::{one,times,inverse}) memory"
  shows "fst (DiagonalInv_factorize d w) = 0
         \<and> fst (snd (DiagonalInv_factorize d w)) = d
         \<and> cells (snd (snd (DiagonalInv_factorize d w))) =
             (\<lambda>a. if m_data (DiagonalInv.m_view d) \<le> a \<and>
                      a < m_data (DiagonalInv.m_view d) + nat (m_nc (DiagonalInv.m_view d))
                   then 1 / cells w a else cells w a)
         \<and> allocs (snd (snd (DiagonalInv_factorize d w))) = allocs w
         \<and> fst (DiagonalInv_solve d b x w) = 0"
  by (simp add: DiagonalInv_factorize_cells)
     (simp add: DiagonalInv_factorize_def DiagonalInv_solve_def Let_def)

text \<open>
  With a zero on the diagonal, \<open>diag(0, 4)\<close> over a floating-point-like \<open>Real_t\<close>: the
  status is still 0, and the zero entry has become \<open>+infinity\<close>.
\<close>

theorem DiagonalInv_status_always_zero_witness:
  "fst (DiagonalInv_factorize diag_example diag_memory_zero) = 0
   \<and> cells (snd (snd (DiagonalInv_factorize diag_example diag_memory_zero))) 0 = PInf
   \<and> cells (snd (snd (DiagonalInv_factorize diag_example diag_memory_zero))) 1 = Fin (1 / 4)
   \<and> fst (DiagonalInv_solve diag_example 2 4 diag_memory_zero) = 0"
  using DiagonalInv_status_always_zero [of diag_example diag_memory_zero 2 4]
  by (simp add: diag_example_def diag_memory_zero_def memory_of_def xreal_arith)

text \<open>
  C9. For a diagonal view whose entries are all nonzero, two calls of \<open>factorize\<close> in
  succession both return status 0 and restore every diagonal entry (indeed the whole
  memory), in exact (field) arithmetic.
\<close>

theorem DiagonalInv_factorize_twice:
  fixes w :: "('a::field) memory"
  assumes nz: "\<forall>i < nat (m_nc (DiagonalInv.m_view d)).
                 cells w (m_data (DiagonalInv.m_view d) + i) \<noteq> 0"
    and fact1: "DiagonalInv_factorize d w = (s1, d1, w1)"
    and fact2: "DiagonalInv_factorize d1 w1 = (s2, d2, w2)"
  shows "s1 = 0 \<and> s2 = 0
         \<and> (\<forall>i < nat (m_nc (DiagonalInv.m_view d)).
               cells w2 (m_data (DiagonalInv.m_view d) + i) =
               cells w (m_data (DiagonalInv.m_view d) + i))
         \<and> w2 = w"
proof -
  let ?A = "m_data (DiagonalInv.m_view d)"
  let ?n = "nat (m_nc (DiagonalInv.m_view d))"
  have s1: "s1 = 0" and d1: "d1 = d" and a1: "allocs w1 = allocs w"
    using fact1 by (auto simp: DiagonalInv_factorize_def Let_def)
  have s2: "s2 = 0" and a2: "allocs w2 = allocs w1"
    using fact2 by (auto simp: DiagonalInv_factorize_def Let_def)
  have w1: "cells w1 = (\<lambda>a. if ?A \<le> a \<and> a < ?A + ?n then 1 / cells w a else cells w a)"
    using DiagonalInv_factorize_cells [of d w] unfolding fact1 by simp
  have w2: "cells w2 = (\<lambda>a. if ?A \<le> a \<and> a < ?A + ?n then 1 / cells w1 a else cells w1 a)"
    using DiagonalInv_factorize_cells [of d w1] fact2 unfolding d1 by simp
  have same: "cells w2 a = cells w a" for a
  proof (cases "?A \<le> a \<and> a < ?A + ?n")
    case True
    then obtain i where i: "i < ?n" and a: "a = ?A + i"
      by (metis add_diff_inverse_nat add_less_cancel_left not_less)
    have "cells w a \<noteq> 0"
      using nz i unfolding a by simp
    then have "1 / (1 / cells w a) = cells w a"
      by simp
    then show ?thesis
      using True by (simp add: w2 w1)
  next
    case False
    then show ?thesis
      by (simp only: w2 w1 if_False)
  qed
  then have "cells w2 = cells w"
    by (simp add: fun_eq_iff)
  then have "w2 = w"
    using a1 a2 by simp
  with s1 s2 show ?thesis
    by simp
qed

theorem DiagonalInv_factorize_twice_witness:
  "fst (DiagonalInv_factorize diag_example diag_memory) = 0
   \<and> fst (DiagonalInv_factorize diag_example
            (snd (snd (DiagonalInv_factorize diag_example diag_memory)))) = 0
   \<and> cells (snd (snd (DiagonalInv_factorize diag_example diag_memory))) 0 = 1 / 2
   \<and> snd (snd (DiagonalInv_factorize diag_example
            (snd (snd (DiagonalInv_factorize diag_example diag_memory))))) = diag_memory"
proof -
  define d where "d = diag_example"
  define w where "w = diag_memory"
  have n: "nat (m_nc (DiagonalInv.m_view d)) = 2" and A: "m_data (DiagonalInv.m_view d) = 0"
    by (simp_all add: d_def diag_example_def)
  have less2: "i < 2 \<longleftrightarrow> i = 0 \<or> i = Suc 0" for i :: nat
    by auto
  have nz: "\<forall>i < nat (m_nc (DiagonalInv.m_view d)).
              cells w (m_data (DiagonalInv.m_view d) + i) \<noteq> 0"
    unfolding n A by (auto simp: w_def diag_memory_def memory_of_def less2)
  have fd: "fst (snd (DiagonalInv_factorize d w)) = d"
    by (simp add: DiagonalInv_factorize_def Let_def)
  have fact1: "DiagonalInv_factorize d w =
      (fst (DiagonalInv_factorize d w), d, snd (snd (DiagonalInv_factorize d w)))"
    using fd by (metis prod.collapse)
  have fact2: "DiagonalInv_factorize d (snd (snd (DiagonalInv_factorize d w))) =
      (fst (DiagonalInv_factorize d (snd (snd (DiagonalInv_factorize d w)))),
       fst (snd (DiagonalInv_factorize d (snd (snd (DiagonalInv_factorize d w))))),
       snd (snd (DiagonalInv_factorize d (snd (snd (DiagonalInv_factorize d w))))))"
    by simp
  note r = DiagonalInv_factorize_twice [OF nz fact1 fact2]
  have half: "cells (snd (snd (DiagonalInv_factorize d w))) 0 = 1 / 2"
    by (simp add: DiagonalInv_factorize_cells d_def w_def diag_example_def diag_memory_def
        memory_of_def)
  show ?thesis
    using r half unfolding d_def w_def by blast
qed

section \<open>What \<open>solve\<close> leaves alone\<close>

lemma length_overwrite [simp]: "length (overwrite buf vs) = length buf"
  by (simp add: overwrite_def)

lemma length_read_range [simp]: "length (read_range h p n) = n"
  by (simp add: read_range_def)

lemma write_range_outside:
  "\<not> (p \<le> a \<and> a < p + n) \<Longrightarrow> length vs \<le> n \<Longrightarrow> write_range h p vs a = h a"
  by (auto simp: write_range_def)

lemma std_copy_outside:
  "\<not> (d \<le> a \<and> a < d + n) \<Longrightarrow> std_copy h first n d a = h a"
  unfolding std_copy_def by (induction n) auto

lemma read_range_unchanged:
  assumes "\<forall>a. \<not> (x \<le> a \<and> a < x + n) \<longrightarrow> h' a = h a"
  shows "\<forall>p k. separate x n p k \<longrightarrow> read_range h' p k = read_range h p k"
proof (intro allI impI)
  fix p k
  assume sep: "separate x n p k"
  have "h' (p + i) = h (p + i)" if "i < k" for i
  proof -
    have "\<not> (x \<le> p + i \<and> p + i < x + n)"
      using that sep by (auto simp: separate_def)
    then show ?thesis
      using assms by blast
  qed
  then show "read_range h' p k = read_range h p k"
    by (simp add: read_range_def)
qed

lemma DenseLU_solve_frame:
  "fst (snd (DenseLU_solve be lu b x w)) = lu"
  "allocs (snd (snd (DenseLU_solve be lu b x w))) = allocs w"
  "\<not> (x \<le> a \<and> a < x + nat (m_nr (DenseLU.m_view lu))) \<Longrightarrow>
     cells (snd (snd (DenseLU_solve be lu b x w))) a = cells w a"
  by (simp_all add: DenseLU_solve_def Let_def split_beta write_range_outside std_copy_outside)

lemma BandedLU_solve_frame:
  "fst (snd (BandedLU_solve be lu b x w)) = lu"
  "allocs (snd (snd (BandedLU_solve be lu b x w))) = allocs w"
  "\<not> (x \<le> a \<and> a < x + nat (m_nr (BandedLU.m_view lu))) \<Longrightarrow>
     cells (snd (snd (BandedLU_solve be lu b x w))) a = cells w a"
  by (simp_all add: BandedLU_solve_def Let_def split_beta write_range_outside std_copy_outside)

lemma fold_product_outside:
  "\<not> (x \<le> a \<and> a < x + n) \<Longrightarrow>
   fold (\<lambda>i h. h(x + i := h (p + i) * h (b + i))) [0..<n] h a = h a"
  by (induction n) auto

lemma DiagonalInv_solve_frame:
  "fst (snd (DiagonalInv_solve d b x w)) = d"
  "allocs (snd (snd (DiagonalInv_solve d b x w))) = allocs w"
  "\<not> (x \<le> a \<and> a < x + nat (m_nc (DiagonalInv.m_view d))) \<Longrightarrow>
     cells (snd (snd (DiagonalInv_solve d b x w))) a = cells w a"
  by (simp_all add: DiagonalInv_solve_def Let_def fold_product_outside)

lemma length_gemv:
  "gemv tr m n alpha a lda x beta y = Inr y' \<Longrightarrow> length y' = length y"
  by (auto simp: gemv_def gemv_T_def gemv_N_def Let_def split: if_splits)

lemma SVD_solve_Inr:
  assumes "SVD_solve svd b x w = Inr (st, svd', w')"
  shows "st = 0" and "svd' = svd" and "allocs w' = allocs w @ [nat (m_nr (SVD.m_view svd))]"
    and "\<exists>x'. length x' = nat (m_nc (SVD.m_view svd)) \<and> cells w' = write_range (cells w) x x'"
  using assms
  by (auto simp: SVD_solve_def Let_def buffer_factory_def split: sum.splits dest!: length_gemv)

lemma SVD_solve_frame:
  assumes "SVD_solve svd b x w = Inr (st, svd', w')"
    and "\<not> (x \<le> a \<and> a < x + nat (m_nc (SVD.m_view svd)))"
  shows "cells w' a = cells w a"
proof -
  obtain x' where "length x' = nat (m_nc (SVD.m_view svd))" "cells w' = write_range (cells w) x x'"
    using SVD_solve_Inr(4) [OF assms(1)] by blast
  then show ?thesis
    using assms(2) by (simp add: write_range_outside)
qed

lemma ctor_cells:
  "cells (snd (DenseLU_ctor view w)) = cells w"
  "cells (snd (BandedLU_ctor bview w)) = cells w"
  "cells (snd (SVD_ctor be view w)) = cells w"
  by (simp_all add: DenseLU_ctor_def BandedLU_ctor_def SVD_ctor_def buffer_factory_def
      Let_def split_beta)

text \<open>
  C5. \<open>solve(b, x)\<close> writes the cells \<open>x[0..n)\<close> and nothing else (\<open>n\<close> is \<open>m_nr\<close> for the
  two LU strategies and \<open>m_nc\<close> for \<open>DiagonalInv\<close> and \<open>SVD\<close>): for each of the four
  strategies the strategy object (view, pivot buffer, singular values, \<open>U\<close>, \<open>V\<^sup>T\<close>,
  work array, condition number) is returned as it was, and every cell outside
  \<open>x[0..n)\<close> keeps its value, so every range of cells that does not overlap \<open>x[0..n)\<close>,
  the vector \<open>b\<close> and the storage of the view among them, reads the same before and after.
  The constructors do not write to the cells either; of the operations only \<open>factorize\<close>
  writes to the view's storage. (For \<open>SVD\<close> the statement is about the calls that return,
  that is, that make no access out of bounds.)
\<close>

theorem solve_writes_only_x:
  fixes w :: "('a::{zero,one,plus,times,uminus,inverse}) memory"
  shows
    "(fst (snd (DenseLU_solve be lu b x w)) = lu
      \<and> (\<forall>a. \<not> (x \<le> a \<and> a < x + nat (m_nr (DenseLU.m_view lu))) \<longrightarrow>
               cells (snd (snd (DenseLU_solve be lu b x w))) a = cells w a)
      \<and> (\<forall>p k. separate x (nat (m_nr (DenseLU.m_view lu))) p k \<longrightarrow>
               read_range (cells (snd (snd (DenseLU_solve be lu b x w)))) p k
               = read_range (cells w) p k))
     \<and> (fst (snd (BandedLU_solve be blu b x w)) = blu
      \<and> (\<forall>a. \<not> (x \<le> a \<and> a < x + nat (m_nr (BandedLU.m_view blu))) \<longrightarrow>
               cells (snd (snd (BandedLU_solve be blu b x w))) a = cells w a)
      \<and> (\<forall>p k. separate x (nat (m_nr (BandedLU.m_view blu))) p k \<longrightarrow>
               read_range (cells (snd (snd (BandedLU_solve be blu b x w)))) p k
               = read_range (cells w) p k))
     \<and> (fst (snd (DiagonalInv_solve d b x w)) = d
      \<and> (\<forall>a. \<not> (x \<le> a \<and> a < x + nat (m_nc (DiagonalInv.m_view d))) \<longrightarrow>
               cells (snd (snd (DiagonalInv_solve d b x w))) a = cells w a)
      \<and> (\<forall>p k. separate x (nat (m_nc (DiagonalInv.m_view d))) p k \<longrightarrow>
               read_range (cells (snd (snd (DiagonalInv_solve d b x w)))) p k
               = read_range (cells w) p k))
     \<and> (\<forall>st svd' w'. SVD_solve svd b x w = Inr (st, svd', w') \<longrightarrow>
          svd' = svd
          \<and> (\<forall>a. \<not> (x \<le> a \<and> a < x + nat (m_nc (SVD.m_view svd))) \<longrightarrow> cells w' a = cells w a)
          \<and> (\<forall>p k. separate x (nat (m_nc (SVD.m_view svd))) p k \<longrightarrow>
                 read_range (cells w') p k = read_range (cells w) p k))
     \<and> cells (snd (DenseLU_ctor view w)) = cells w
     \<and> cells (snd (BandedLU_ctor bview w)) = cells w
     \<and> cells (snd (SVD_ctor be' view w)) = cells w"
proof -
  have a: "\<forall>a. \<not> (x \<le> a \<and> a < x + nat (m_nr (DenseLU.m_view lu))) \<longrightarrow>
               cells (snd (snd (DenseLU_solve be lu b x w))) a = cells w a"
    using DenseLU_solve_frame(3) by blast
  have b: "\<forall>a. \<not> (x \<le> a \<and> a < x + nat (m_nr (BandedLU.m_view blu))) \<longrightarrow>
               cells (snd (snd (BandedLU_solve be blu b x w))) a = cells w a"
    using BandedLU_solve_frame(3) by blast
  have c: "\<forall>a. \<not> (x \<le> a \<and> a < x + nat (m_nc (DiagonalInv.m_view d))) \<longrightarrow>
               cells (snd (snd (DiagonalInv_solve d b x w))) a = cells w a"
    using DiagonalInv_solve_frame(3) by blast
  have svd: "\<forall>st svd' w'. SVD_solve svd b x w = Inr (st, svd', w') \<longrightarrow>
      svd' = svd
      \<and> (\<forall>a. \<not> (x \<le> a \<and> a < x + nat (m_nc (SVD.m_view svd))) \<longrightarrow> cells w' a = cells w a)
      \<and> (\<forall>p k. separate x (nat (m_nc (SVD.m_view svd))) p k \<longrightarrow>
             read_range (cells w') p k = read_range (cells w) p k)"
  proof (intro allI impI)
    fix st svd' w'
    assume r: "SVD_solve svd b x w = Inr (st, svd', w')"
    have 1: "svd' = svd"
      by (rule SVD_solve_Inr(2) [OF r])
    have 2: "\<forall>a. \<not> (x \<le> a \<and> a < x + nat (m_nc (SVD.m_view svd))) \<longrightarrow> cells w' a = cells w a"
      using SVD_solve_frame [OF r] by blast
    show "svd' = svd
      \<and> (\<forall>a. \<not> (x \<le> a \<and> a < x + nat (m_nc (SVD.m_view svd))) \<longrightarrow> cells w' a = cells w a)
      \<and> (\<forall>p k. separate x (nat (m_nc (SVD.m_view svd))) p k \<longrightarrow>
             read_range (cells w') p k = read_range (cells w) p k)"
      using 1 2 read_range_unchanged [OF 2] by (intro conjI)
  qed
  show ?thesis
    using a b c svd read_range_unchanged [OF a] read_range_unchanged [OF b]
      read_range_unchanged [OF c]
      DenseLU_solve_frame(1) [of be lu b x w] BandedLU_solve_frame(1) [of be blu b x w]
      DiagonalInv_solve_frame(1) [of d b x w]
      ctor_cells(1) [of view w] ctor_cells(2) [of bview w] ctor_cells(3) [of be' view w]
    by (intro conjI)
qed

lemmas example_defs =
  dense_view_def dense_memory_def banded_view_def banded_memory_def dense_lu_def banded_lu_def
  dense_svd_def diag_example_def diag_memory_def memory_of_def

lemma SVD_solve_dense_example:
  "SVD_solve dense_svd 8 10 dense_memory =
     Inr (0, dense_svd, \<lparr>cells = write_range (cells dense_memory) 10 [2, 3], allocs = [2]\<rparr>)"
  by (simp add: SVD_solve_def example_defs Let_def buffer_factory_def gemv_def gemv_T_def
      gemv_scale_def read_range_def SVD_solve_loop_def upt_conv_Cons)

theorem solve_writes_only_x_witness:
  "read_range (cells (snd (snd (DenseLU_solve backend_diagonal dense_lu 8 10 dense_memory)))) 8 2
     = [8, 6]
   \<and> read_range (cells (snd (snd (DenseLU_solve backend_diagonal dense_lu 8 10 dense_memory)))) 0 4
     = [4, 0, 0, 2]
   \<and> read_range (cells (snd (snd (BandedLU_solve backend_diagonal banded_lu 8 10 banded_memory)))) 8 2
     = [8, 6]
   \<and> read_range (cells (snd (snd (BandedLU_solve backend_diagonal banded_lu 8 10 banded_memory)))) 0 8
     = [0, 0, 4, 0, 0, 0, 2, 0]
   \<and> read_range (cells (snd (snd (DiagonalInv_solve diag_example 2 4 diag_memory)))) 0 4
     = [2, 4, 6, 8]
   \<and> (case SVD_solve dense_svd 8 10 dense_memory of
         Inl e \<Rightarrow> False
       | Inr (st, svd', w') \<Rightarrow>
           svd' = dense_svd \<and> read_range (cells w') 0 10 = [4, 0, 0, 2, 0, 0, 0, 0, 8, 6])"
proof -
  note t1 = solve_writes_only_x [where x = 10 and b = 8 and be = backend_diagonal
      and lu = dense_lu and svd = dense_svd and w = dense_memory]
  note t2 = solve_writes_only_x [where x = 10 and b = 8 and be = backend_diagonal
      and blu = banded_lu and w = banded_memory]
  note t3 = solve_writes_only_x [where x = 4 and b = 2 and d = diag_example and w = diag_memory]
  have dense: "\<forall>p k. separate 10 (nat (m_nr (DenseLU.m_view dense_lu))) p k \<longrightarrow>
      read_range (cells (snd (snd (DenseLU_solve backend_diagonal dense_lu 8 10 dense_memory)))) p k
      = read_range (cells dense_memory) p k"
    using t1 by blast
  have banded: "\<forall>p k. separate 10 (nat (m_nr (BandedLU.m_view banded_lu))) p k \<longrightarrow>
      read_range (cells (snd (snd (BandedLU_solve backend_diagonal banded_lu 8 10 banded_memory)))) p k
      = read_range (cells banded_memory) p k"
    using t2 by blast
  have diag: "\<forall>p k. separate 4 (nat (m_nc (DiagonalInv.m_view diag_example))) p k \<longrightarrow>
      read_range (cells (snd (snd (DiagonalInv_solve diag_example 2 4 diag_memory)))) p k
      = read_range (cells diag_memory) p k"
    using t3 by blast
  have svd: "\<forall>st svd' w'. SVD_solve dense_svd 8 10 dense_memory = Inr (st, svd', w') \<longrightarrow>
      svd' = dense_svd
      \<and> (\<forall>p k. separate 10 (nat (m_nc (SVD.m_view dense_svd))) p k \<longrightarrow>
             read_range (cells w') p k = read_range (cells dense_memory) p k)"
    using t1 by blast
  have 1: "read_range (cells (snd (snd (DenseLU_solve backend_diagonal dense_lu 8 10 dense_memory)))) 8 2
     = [8, 6]"
    using dense [rule_format, of 8 2]
    by (simp add: separate_def example_defs read_range_def upt_conv_Cons)
  have 2: "read_range (cells (snd (snd (DenseLU_solve backend_diagonal dense_lu 8 10 dense_memory)))) 0 4
     = [4, 0, 0, 2]"
    using dense [rule_format, of 0 4]
    by (simp add: separate_def example_defs read_range_def upt_conv_Cons)
  have 3: "read_range (cells (snd (snd (BandedLU_solve backend_diagonal banded_lu 8 10 banded_memory)))) 8 2
     = [8, 6]"
    using banded [rule_format, of 8 2]
    by (simp add: separate_def example_defs read_range_def upt_conv_Cons)
  have 4: "read_range (cells (snd (snd (BandedLU_solve backend_diagonal banded_lu 8 10 banded_memory)))) 0 8
     = [0, 0, 4, 0, 0, 0, 2, 0]"
    using banded [rule_format, of 0 8]
    by (simp add: separate_def example_defs read_range_def upt_conv_Cons)
  have 5: "read_range (cells (snd (snd (DiagonalInv_solve diag_example 2 4 diag_memory)))) 0 4
     = [2, 4, 6, 8]"
    using diag [rule_format, of 0 4]
    by (simp add: separate_def example_defs read_range_def upt_conv_Cons)
  have 6: "read_range (cells \<lparr>cells = write_range (cells dense_memory) 10 [2, 3], allocs = [2]\<rparr>) 0 10
      = [4, 0, 0, 2, 0, 0, 0, 0, 8, 6]"
    using svd [rule_format, OF SVD_solve_dense_example, THEN conjunct2, rule_format, of 0 10]
    by (simp add: separate_def example_defs read_range_def upt_conv_Cons)
  show ?thesis
    using 1 2 3 4 5 6 by (simp add: SVD_solve_dense_example)
qed


section \<open>The condition number before the first \<open>factorize\<close>\<close>

lemma SVD_ctor_condition_number:
  "m_condition_number (fst (SVD_ctor be view w)) = - 1"
  by (simp add: SVD_ctor_def Let_def split_beta)

text \<open>
  C10. A freshly constructed \<open>SVD\<close> has \<open>m_condition_number = -1\<close>, and \<open>solve\<close> does not
  assign it: after the constructor and any number of calls of \<open>solve\<close> (none included),
  and no call of \<open>factorize\<close>, the condition number read is still the sentinel \<open>-1\<close>.
\<close>

theorem SVD_condition_number_sentinel:
  fixes w :: "('a::{zero,one,plus,times,uminus,inverse}) memory"
  assumes "SVD_solve_calls (fst (SVD_ctor be view w0)) calls w = Inr (svd', w')"
  shows "m_condition_number svd' = - 1"
proof -
  have "SVD_solve_calls svd calls w = Inr (svd', w') \<Longrightarrow> svd' = svd"
    for svd :: "'a SVD"
  proof (induction calls arbitrary: svd w)
    case Nil
    then show ?case by simp
  next
    case (Cons c calls)
    obtain b x where c: "c = (b, x)"
      by (cases c)
    from Cons.prems obtain st svd1 w1
      where 1: "SVD_solve svd b x w = Inr (st, svd1, w1)"
        and 2: "SVD_solve_calls svd1 calls w1 = Inr (svd', w')"
      unfolding c by (auto split: sum.splits)
    have "svd1 = svd"
      by (rule SVD_solve_Inr(2) [OF 1])
    with Cons.IH [OF 2] show ?case
      by simp
  qed
  from this [OF assms] show ?thesis
    by (simp add: SVD_ctor_condition_number)
qed

lemma SVD_ctor_dense_example:
  "fst (SVD_ctor backend_diagonal dense_view dense_memory) =
     \<lparr>SVD.m_view = dense_view, m_s = [0, 0], m_ldu = 2, m_u = [0, 0, 0, 0], m_ldvt = 2,
      m_vt = [0, 0, 0, 0], m_work = replicate 10 0, m_lwork = 10, m_condition_number = - 1\<rparr>"
  by (simp add: SVD_ctor_def backend_diagonal_def dense_view_def Let_def buffer_factory_def
      int_mul_examples numeral_eq_Suc)

theorem SVD_condition_number_sentinel_witness:
  "(case SVD_solve_calls (fst (SVD_ctor backend_diagonal dense_view dense_memory)) [(8, 10)]
           (snd (SVD_ctor backend_diagonal dense_view dense_memory)) of
      Inl e \<Rightarrow> False
    | Inr (svd', w') \<Rightarrow> m_condition_number svd' = - 1)"
proof -
  have "\<exists>svd' w'. SVD_solve_calls (fst (SVD_ctor backend_diagonal dense_view dense_memory)) [(8, 10)]
           (snd (SVD_ctor backend_diagonal dense_view dense_memory)) = Inr (svd', w')"
    unfolding SVD_ctor_dense_example
    by (simp add: SVD_solve_def example_defs Let_def buffer_factory_def gemv_def gemv_T_def
      gemv_scale_def read_range_def SVD_solve_loop_def upt_conv_Cons)
  then obtain svd' w'
    where r: "SVD_solve_calls (fst (SVD_ctor backend_diagonal dense_view dense_memory)) [(8, 10)]
           (snd (SVD_ctor backend_diagonal dense_view dense_memory)) = Inr (svd', w')"
    by blast
  show ?thesis
    unfolding r using SVD_condition_number_sentinel [OF r] by simp
qed

section \<open>Allocation of the workspace buffers\<close>

lemma LU_ctor_allocs:
  "allocs (snd (DenseLU_ctor view w)) = allocs w @ [nat (m_nr view)]"
  "length (DenseLU.m_ipiv (fst (DenseLU_ctor view w))) = nat (m_nr view)"
  "allocs (snd (BandedLU_ctor bview w)) = allocs w @ [nat (m_nr bview)]"
  "length (BandedLU.m_ipiv (fst (BandedLU_ctor bview w))) = nat (m_nr bview)"
  by (simp_all add: DenseLU_ctor_def BandedLU_ctor_def buffer_factory_def)

lemma SVD_ctor_allocs:
  "allocs (snd (SVD_ctor be view w)) = allocs w @ SVD_buffer_sizes (fst (SVD_ctor be view w))"
  "SVD_buffer_sizes (fst (SVD_ctor be view w)) =
     [nat (min (m_nr view) (m_nc view)), nat (int_mul (m_nr view) (m_nr view)),
      nat (int_mul (m_nc view) (m_nc view)), nat (m_lwork (fst (SVD_ctor be view w)))]"
  "m_lwork (fst (SVD_ctor be view w)) =
     static_cast_int be (fst (gesvd_query be CHR ''A'' CHR ''A'' (m_nr view) (m_nc view) (m_ld view)
        (m_nr view) (m_nc view)))"
  by (simp_all add: SVD_ctor_def SVD_buffer_sizes_def buffer_factory_def Let_def split_beta)

lemma LU_factorize_allocs:
  "allocs (snd (snd (DenseLU_factorize be lu w))) = allocs w"
  "length (DenseLU.m_ipiv (fst (snd (DenseLU_factorize be lu w)))) = length (DenseLU.m_ipiv lu)"
  "allocs (snd (snd (BandedLU_factorize be blu w))) = allocs w"
  "length (BandedLU.m_ipiv (fst (snd (BandedLU_factorize be blu w)))) = length (BandedLU.m_ipiv blu)"
  by (simp_all add: DenseLU_factorize_def BandedLU_factorize_def Let_def split_beta)

lemma SVD_factorize_Inr:
  assumes "SVD_factorize be svd w = Inr (info, svd', w')"
  shows "allocs w' = allocs w" and "SVD_buffer_sizes svd' = SVD_buffer_sizes svd"
    and "SVD.m_view svd' = SVD.m_view svd"
  using assms
  by (auto simp: SVD_factorize_def SVD_buffer_sizes_def Let_def split_beta split: if_splits)

text \<open>
  C6, as the code has it. The member buffers are allocated in the constructor, and no
  call of \<open>factorize\<close> or \<open>solve\<close> changes the size of a member buffer. The pivot buffer
  of the LU strategies has \<open>m_nr\<close> elements. For an \<open>SVD\<close> over a view whose
  \<open>m_nr * m_nr\<close> and \<open>m_nc * m_nc\<close> fit into an \<open>int\<close> (the constructor computes these
  products in \<open>int\<close>), \<open>m_s\<close>, \<open>m_u\<close> and \<open>m_vt\<close> have \<open>min(m_nr, m_nc)\<close>,
  \<open>m_nr * m_nr\<close> and \<open>m_nc * m_nc\<close> elements and \<open>m_work\<close> has the size the backend's
  workspace query returned. \<open>factorize\<close> of every strategy and \<open>solve\<close> of
  \<open>DenseLU\<close>, \<open>BandedLU\<close> and \<open>DiagonalInv\<close> allocate nothing. \<open>SVD::solve\<close> allocates one
  temporary buffer of \<open>m_nr\<close> elements on every call.
\<close>

theorem workspace_allocation:
  fixes w :: "('a::{zero,one,plus,times,uminus,inverse,abs}) memory"
  shows
    "allocs (snd (DenseLU_ctor view w)) = allocs w @ [nat (m_nr view)]
     \<and> length (DenseLU.m_ipiv (fst (DenseLU_ctor view w))) = nat (m_nr view)
     \<and> allocs (snd (BandedLU_ctor bview w)) = allocs w @ [nat (m_nr bview)]
     \<and> length (BandedLU.m_ipiv (fst (BandedLU_ctor bview w))) = nat (m_nr bview)
     \<and> allocs (snd (SVD_ctor be view w)) = allocs w @ SVD_buffer_sizes (fst (SVD_ctor be view w))
     \<and> (m_nr view * m_nr view < 2 ^ 31 \<and> m_nc view * m_nc view < 2 ^ 31 \<longrightarrow>
          SVD_buffer_sizes (fst (SVD_ctor be view w)) =
            [nat (min (m_nr view) (m_nc view)), nat (m_nr view * m_nr view),
             nat (m_nc view * m_nc view),
             nat (static_cast_int be (fst (gesvd_query be CHR ''A'' CHR ''A'' (m_nr view)
                (m_nc view) (m_ld view) (m_nr view) (m_nc view))))])
     \<and> allocs (snd (snd (DenseLU_factorize be lu w))) = allocs w
     \<and> length (DenseLU.m_ipiv (fst (snd (DenseLU_factorize be lu w)))) = length (DenseLU.m_ipiv lu)
     \<and> allocs (snd (snd (BandedLU_factorize be blu w))) = allocs w
     \<and> length (BandedLU.m_ipiv (fst (snd (BandedLU_factorize be blu w))))
         = length (BandedLU.m_ipiv blu)
     \<and> allocs (snd (snd (DiagonalInv_factorize d w))) = allocs w
     \<and> (\<forall>info svd' w'. SVD_factorize be svd w = Inr (info, svd', w') \<longrightarrow>
           allocs w' = allocs w \<and> SVD_buffer_sizes svd' = SVD_buffer_sizes svd)
     \<and> allocs (snd (snd (DenseLU_solve be lu b x w))) = allocs w
     \<and> fst (snd (DenseLU_solve be lu b x w)) = lu
     \<and> allocs (snd (snd (BandedLU_solve be blu b x w))) = allocs w
     \<and> fst (snd (BandedLU_solve be blu b x w)) = blu
     \<and> allocs (snd (snd (DiagonalInv_solve d b x w))) = allocs w
     \<and> (\<forall>st svd' w'. SVD_solve svd b x w = Inr (st, svd', w') \<longrightarrow>
           SVD_buffer_sizes svd' = SVD_buffer_sizes svd
           \<and> allocs w' = allocs w @ [nat (m_nr (SVD.m_view svd))])"
proof -
  have f: "\<forall>info svd' w'. SVD_factorize be svd w = Inr (info, svd', w') \<longrightarrow>
           allocs w' = allocs w \<and> SVD_buffer_sizes svd' = SVD_buffer_sizes svd"
    using SVD_factorize_Inr(1,2) by blast
  have s: "\<forall>st svd' w'. SVD_solve svd b x w = Inr (st, svd', w') \<longrightarrow>
           SVD_buffer_sizes svd' = SVD_buffer_sizes svd
           \<and> allocs w' = allocs w @ [nat (m_nr (SVD.m_view svd))]"
    using SVD_solve_Inr(2,3) by blast
  have q: "m_nr view * m_nr view < 2 ^ 31 \<and> m_nc view * m_nc view < 2 ^ 31 \<longrightarrow>
          SVD_buffer_sizes (fst (SVD_ctor be view w)) =
            [nat (min (m_nr view) (m_nc view)), nat (m_nr view * m_nr view),
             nat (m_nc view * m_nc view),
             nat (static_cast_int be (fst (gesvd_query be CHR ''A'' CHR ''A'' (m_nr view)
                (m_nc view) (m_ld view) (m_nr view) (m_nc view))))]"
    using SVD_ctor_allocs(2) [of be view w] unfolding SVD_ctor_allocs(3)
    by (simp add: int_mul_square_fits)
  have dz: "allocs (snd (snd (DiagonalInv_factorize d w))) = allocs w"
    by (simp add: DiagonalInv_factorize_def Let_def)
  show ?thesis
    using f s q dz LU_ctor_allocs SVD_ctor_allocs(1) LU_factorize_allocs
      DenseLU_solve_frame(1,2) BandedLU_solve_frame(1,2) DiagonalInv_solve_frame(2)
    by (intro conjI)
qed

lemma SVD_factorize_dense_example:
  "SVD_factorize backend_diagonal (fst (SVD_ctor backend_diagonal dense_view dense_memory))
      (snd (SVD_ctor backend_diagonal dense_view dense_memory)) =
     Inr (0, dense_svd,
          \<lparr>cells = write_range (cells dense_memory) 0 [4, 0, 0, 2], allocs = [2, 4, 4, 10]\<rparr>)"
  unfolding SVD_ctor_dense_example
  by (simp add: SVD_factorize_def SVD_ctor_def backend_diagonal_def identity_matrix_def
      example_defs Let_def buffer_factory_def overwrite_def read_range_def
      int_mul_examples upt_conv_Cons)

text \<open>
  The example: constructing an \<open>SVD\<close> over the 2-by-2 view allocates 2, 4, 4 and 10
  elements; factorizing allocates nothing; each \<open>solve\<close> allocates 2 elements more.
\<close>

theorem workspace_allocation_witness:
  "allocs (snd (SVD_ctor backend_diagonal dense_view dense_memory)) = [2, 4, 4, 10]
   \<and> (case SVD_factorize backend_diagonal (fst (SVD_ctor backend_diagonal dense_view dense_memory))
              (snd (SVD_ctor backend_diagonal dense_view dense_memory)) of
         Inl e \<Rightarrow> False
       | Inr (info, svd', w') \<Rightarrow> allocs w' = [2, 4, 4, 10] \<and> SVD_buffer_sizes svd' = [2, 4, 4, 10])
   \<and> (case SVD_solve dense_svd 8 10 dense_memory of
         Inl e \<Rightarrow> False
       | Inr (st, svd', w') \<Rightarrow> allocs w' = [2] \<and> SVD_buffer_sizes svd' = [2, 4, 4, 10])"
proof -
  note t1 = workspace_allocation [where be = backend_diagonal and view = dense_view
      and w = dense_memory and svd = dense_svd and b = 8 and x = 10]
  note t2 = workspace_allocation [where be = backend_diagonal
      and w = "snd (SVD_ctor backend_diagonal dense_view dense_memory)"
      and svd = "fst (SVD_ctor backend_diagonal dense_view dense_memory)"]
  have sizes: "SVD_buffer_sizes (fst (SVD_ctor backend_diagonal dense_view dense_memory))
      = [2, 4, 4, 10]"
    using t1 by (simp add: backend_diagonal_def dense_view_def)
  have c: "allocs (snd (SVD_ctor backend_diagonal dense_view dense_memory)) = [2, 4, 4, 10]"
    using t1 sizes by (simp add: dense_memory_def memory_of_def)
  have f: "\<forall>info svd' w'. SVD_factorize backend_diagonal
              (fst (SVD_ctor backend_diagonal dense_view dense_memory))
              (snd (SVD_ctor backend_diagonal dense_view dense_memory)) = Inr (info, svd', w') \<longrightarrow>
           allocs w' = allocs (snd (SVD_ctor backend_diagonal dense_view dense_memory))
           \<and> SVD_buffer_sizes svd'
               = SVD_buffer_sizes (fst (SVD_ctor backend_diagonal dense_view dense_memory))"
    using t2 by blast
  have s: "\<forall>st svd' w'. SVD_solve dense_svd 8 10 dense_memory = Inr (st, svd', w') \<longrightarrow>
           SVD_buffer_sizes svd' = SVD_buffer_sizes dense_svd
           \<and> allocs w' = allocs dense_memory @ [nat (m_nr (SVD.m_view dense_svd))]"
    using t1 by blast
  have sd: "SVD_buffer_sizes dense_svd = [2, 4, 4, 10]"
    by (simp add: SVD_buffer_sizes_def dense_svd_def)
  have m: "allocs dense_memory = []" and n: "nat (m_nr (SVD.m_view dense_svd)) = 2"
    by (simp_all add: example_defs)
  show ?thesis
    using c f [rule_format, OF SVD_factorize_dense_example]
      s [rule_format, OF SVD_solve_dense_example]
    unfolding SVD_factorize_dense_example SVD_solve_dense_example
    by (simp add: sizes sd c m n)
qed

text \<open>
  C6 as stated fails: a call of \<open>SVD::solve\<close> allocates. On the factorized instance of
  \<open>diag(4, 2)\<close>, with an empty allocation log before the call, the log holds one request
  of 2 elements (the temporary \<open>y1\<close>) after it.
\<close>

theorem SVD_solve_allocates:
  "allocs dense_memory = []
   \<and> SVD_solve dense_svd 8 10 dense_memory =
       Inr (0, dense_svd, \<lparr>cells = write_range (cells dense_memory) 10 [2, 3], allocs = [2]\<rparr>)"
  by (simp add: SVD_solve_dense_example) (simp add: dense_memory_def memory_of_def)

section \<open>The accesses of \<open>SVD::solve\<close>\<close>



lemma length_gemv_T:
  "n \<le> length y \<Longrightarrow> length (gemv_T m n alpha a lda x beta y) = length y"
  by (simp add: gemv_T_def)

lemma gemv_T_square:
  fixes a :: "('a::{zero,one,plus,times}) list"
  assumes "(1::'a) \<noteq> 0"
    and "0 < n" and "length a = nat (n * n)" and "nat n \<le> length x" and "nat n \<le> length y"
  shows "gemv CHR ''T'' n n 1 a n x 0 y = Inr (gemv_T (nat n) (nat n) 1 a (nat n) x 0 y)"
proof -
  have "n + (n - 1) * n = n * n"
    by (simp add: algebra_simps)
  then show ?thesis
    using assms by (simp add: gemv_def Let_def)
qed

lemma gemv_short_x:
  fixes a :: "('a::field) list"
  assumes "0 < n" and "length x < nat n"
  shows "gemv CHR ''T'' n n 1 a n x 0 y = Inl OutOfBounds"
  using assms by (simp add: gemv_def Let_def)

lemma SVD_solve_loop_closed:
  "SVD_solve_loop n s y =
     (if n \<le> length s \<and> n \<le> length y
      then Inr (map (\<lambda>i. y ! i / s ! i) [0..<n] @ drop n y) else Inl OutOfBounds)"
proof (induction n)
  case 0
  show ?case by (simp add: SVD_solve_loop_def)
next
  case (Suc n)
  have step: "SVD_solve_loop (Suc n) s y =
      (case SVD_solve_loop n s y of
         Inl e \<Rightarrow> Inl e
       | Inr y' \<Rightarrow> if n < length y' \<and> n < length s
                    then Inr (y'[n := y' ! n / s ! n]) else Inl OutOfBounds)"
    by (simp add: SVD_solve_loop_def)
  show ?case
  proof (cases "Suc n \<le> length s \<and> Suc n \<le> length y")
    case True
    then have n: "n < length s" "n < length y"
      by simp_all
    have upd: "(map (\<lambda>i. y ! i / s ! i) [0..<n] @ drop n y)[n := y ! n / s ! n]
        = map (\<lambda>i. y ! i / s ! i) [0..<Suc n] @ drop (Suc n) y"
      using n by (simp add: list_update_append Cons_nth_drop_Suc [symmetric] )
    show ?thesis
      unfolding step Suc.IH using True n upd by (simp add: nth_append)
  next
    case False
    then show ?thesis
      unfolding step Suc.IH by (auto split: sum.splits)
  qed
qed


lemma SVD_ctor_sized: "SVD_sized (fst (SVD_ctor be view w))"
  by (simp add: SVD_ctor_def SVD_sized_def buffer_factory_def Let_def split_beta)

lemma SVD_factorize_sized:
  "SVD_factorize be svd w = Inr (info, svd', w') \<Longrightarrow> SVD_sized svd \<Longrightarrow> SVD_sized svd'"
  by (auto simp: SVD_factorize_def SVD_sized_def Let_def split_beta split: if_splits)

lemma SVD_solve_first_gemv:
  fixes svd :: "('a::{zero,one,plus,times}) SVD"
  assumes "SVD_sized svd" and "0 < m_nr (SVD.m_view svd)"
    and "m_nr (SVD.m_view svd) * m_nr (SVD.m_view svd) < 2 ^ 31"
    and "(1::'a) \<noteq> 0"
  shows "gemv CHR ''T'' (m_nr (SVD.m_view svd)) (m_nr (SVD.m_view svd)) 1 (m_u svd) (m_ldu svd)
           (read_range h b (nat (m_nr (SVD.m_view svd)))) 0
           (replicate (nat (m_nr (SVD.m_view svd))) 0)
         = Inr (gemv_T (nat (m_nr (SVD.m_view svd))) (nat (m_nr (SVD.m_view svd))) 1 (m_u svd)
                  (nat (m_nr (SVD.m_view svd))) (read_range h b (nat (m_nr (SVD.m_view svd)))) 0
                  (replicate (nat (m_nr (SVD.m_view svd))) 0))"
proof -
  have ldu: "m_ldu svd = m_nr (SVD.m_view svd)"
    and len: "length (m_u svd) = nat (m_nr (SVD.m_view svd) * m_nr (SVD.m_view svd))"
    using assms(1) int_mul_square_fits [OF assms(3)] by (simp_all add: SVD_sized_def)
  show ?thesis
    unfolding ldu by (rule gemv_T_square [OF assms(4,2) len]) simp_all
qed

lemma SVD_solve_square:
  fixes svd :: "('a::{zero,one,plus,times,inverse}) SVD"
  assumes sized: "SVD_sized svd" and pos: "0 < m_nr (SVD.m_view svd)"
    and sq: "m_nc (SVD.m_view svd) = m_nr (SVD.m_view svd)"
    and fits: "m_nr (SVD.m_view svd) * m_nr (SVD.m_view svd) < 2 ^ 31"
    and one: "(1::'a) \<noteq> 0"
  shows "SVD_solve svd b x w =
     Inr (0, svd,
          \<lparr>cells = write_range (cells w) x
             (gemv_T (nat (m_nr (SVD.m_view svd))) (nat (m_nr (SVD.m_view svd))) 1 (m_vt svd)
                (nat (m_nr (SVD.m_view svd)))
                (map (\<lambda>i. gemv_T (nat (m_nr (SVD.m_view svd))) (nat (m_nr (SVD.m_view svd))) 1
                             (m_u svd) (nat (m_nr (SVD.m_view svd)))
                             (read_range (cells w) b (nat (m_nr (SVD.m_view svd)))) 0
                             (replicate (nat (m_nr (SVD.m_view svd))) 0) ! i / m_s svd ! i)
                   [0..<nat (m_nr (SVD.m_view svd))])
                0 (read_range (cells w) x (nat (m_nr (SVD.m_view svd))))),
           allocs = allocs w @ [nat (m_nr (SVD.m_view svd))]\<rparr>)"
proof -
  let ?n = "m_nr (SVD.m_view svd)"
  let ?y = "gemv_T (nat ?n) (nat ?n) 1 (m_u svd) (nat ?n) (read_range (cells w) b (nat ?n)) 0
              (replicate (nat ?n) 0)"
  have ldvt: "m_ldvt svd = ?n" and lens: "length (m_s svd) = nat ?n"
    and lenvt: "length (m_vt svd) = nat (?n * ?n)"
    using sized sq int_mul_square_fits [OF fits] by (simp_all add: SVD_sized_def)
  have leny: "length ?y = nat ?n"
    by (simp add: length_gemv_T)
  have loop: "SVD_solve_loop (nat ?n) (m_s svd) ?y
      = Inr (map (\<lambda>i. ?y ! i / m_s svd ! i) [0..<nat ?n])"
    unfolding SVD_solve_loop_closed using lens leny by simp
  have g2: "gemv CHR ''T'' ?n ?n 1 (m_vt svd) ?n (map (\<lambda>i. ?y ! i / m_s svd ! i) [0..<nat ?n]) 0
              (read_range (cells w) x (nat ?n))
            = Inr (gemv_T (nat ?n) (nat ?n) 1 (m_vt svd) (nat ?n)
                     (map (\<lambda>i. ?y ! i / m_s svd ! i) [0..<nat ?n]) 0
                     (read_range (cells w) x (nat ?n)))"
    by (rule gemv_T_square [OF one pos lenvt]) simp_all
  show ?thesis
    unfolding SVD_solve_def Let_def buffer_factory_def
    by (simp add: sq ldvt SVD_solve_first_gemv [OF sized pos fits one] loop g2)
qed

lemma SVD_solve_not_square:
  fixes svd :: "('a::field) SVD"
  assumes sized: "SVD_sized svd" and pos: "0 < m_nr (SVD.m_view svd)" "0 < m_nc (SVD.m_view svd)"
    and ne: "m_nr (SVD.m_view svd) \<noteq> m_nc (SVD.m_view svd)"
    and fits: "m_nr (SVD.m_view svd) * m_nr (SVD.m_view svd) < 2 ^ 31"
  shows "SVD_solve svd b x w = Inl OutOfBounds"
proof -
  let ?nr = "m_nr (SVD.m_view svd)"
  let ?nc = "m_nc (SVD.m_view svd)"
  let ?y = "gemv_T (nat ?nr) (nat ?nr) 1 (m_u svd) (nat ?nr) (read_range (cells w) b (nat ?nr)) 0
              (replicate (nat ?nr) 0)"
  have ldvt: "m_ldvt svd = ?nc" and lens: "length (m_s svd) = nat (min ?nr ?nc)"
    using sized by (simp_all add: SVD_sized_def)
  have leny: "length ?y = nat ?nr"
    by (simp add: length_gemv_T)
  show ?thesis
  proof (cases "?nr < ?nc")
    case True
    have loop: "SVD_solve_loop (nat ?nr) (m_s svd) ?y
        = Inr (map (\<lambda>i. ?y ! i / m_s svd ! i) [0..<nat ?nr])"
      unfolding SVD_solve_loop_closed using lens leny True by simp
    have g2: "gemv CHR ''T'' ?nc ?nc 1 (m_vt svd) ?nc (map (\<lambda>i. ?y ! i / m_s svd ! i) [0..<nat ?nr]) 0
                (read_range (cells w) x (nat ?nc)) = Inl OutOfBounds"
      by (rule gemv_short_x [OF pos(2)]) (use True pos in simp)
    show ?thesis
      unfolding SVD_solve_def Let_def buffer_factory_def
      by (simp add: ldvt SVD_solve_first_gemv [OF sized pos(1) fits one_neq_zero] loop g2)
  next
    case False
    then have gt: "?nc < ?nr"
      using ne by simp
    have loop: "SVD_solve_loop (nat ?nr) (m_s svd) ?y = Inl OutOfBounds"
      unfolding SVD_solve_loop_closed using lens gt pos by simp
    show ?thesis
      unfolding SVD_solve_def Let_def buffer_factory_def
      by (simp add: SVD_solve_first_gemv [OF sized pos(1) fits one_neq_zero] loop)
  qed
qed


text \<open>
  C8, as the code has it. For an \<open>SVD\<close> with the buffers as the constructor sizes them,
  over a view with at least one row and one column and with \<open>m_nr * m_nr\<close> within \<open>int\<close>
  (the constructor computes the size of \<open>m_u\<close> as that product in \<open>int\<close>), \<open>solve\<close> makes
  an access out of bounds exactly when the view is not square; on a square view it returns status 0 and the
  unchanged object. The division loop reads \<open>m_s[i]\<close> for \<open>i < m_nr\<close>, which is within the
  \<open>min(m_nr, m_nc)\<close> elements of \<open>m_s\<close> exactly when \<open>m_nr \<le> m_nc\<close>. (With fewer rows
  than columns the second matrix-vector product reads \<open>m_nc\<close> elements of the temporary
  \<open>y1\<close>, which has \<open>m_nr\<close>.)
\<close>

theorem SVD_solve_in_bounds_iff_square:
  fixes svd :: "('a::field) SVD"
  assumes sized: "SVD_sized svd"
    and pos: "0 < m_nr (SVD.m_view svd)" "0 < m_nc (SVD.m_view svd)"
    and fits: "m_nr (SVD.m_view svd) * m_nr (SVD.m_view svd) < 2 ^ 31"
  shows "(SVD_solve svd b x w = Inl OutOfBounds
            \<longleftrightarrow> m_nr (SVD.m_view svd) \<noteq> m_nc (SVD.m_view svd))
         \<and> (m_nr (SVD.m_view svd) = m_nc (SVD.m_view svd)
            \<longrightarrow> (\<exists>w'. SVD_solve svd b x w = Inr (0, svd, w')))
         \<and> (\<forall>y1. length y1 = nat (m_nr (SVD.m_view svd)) \<longrightarrow>
               (SVD_solve_loop (nat (m_nr (SVD.m_view svd))) (m_s svd) y1 = Inl OutOfBounds
                  \<longleftrightarrow> m_nc (SVD.m_view svd) < m_nr (SVD.m_view svd)))"
proof (intro conjI allI impI)
  show "SVD_solve svd b x w = Inl OutOfBounds
          \<longleftrightarrow> m_nr (SVD.m_view svd) \<noteq> m_nc (SVD.m_view svd)"
  proof (cases "m_nr (SVD.m_view svd) = m_nc (SVD.m_view svd)")
    case True
    then show ?thesis
      using SVD_solve_square [OF sized pos(1) _ fits one_neq_zero, of b x w] by simp
  next
    case False
    then show ?thesis
      using SVD_solve_not_square [OF sized pos False fits, of b x w] by simp
  qed
next
  assume "m_nr (SVD.m_view svd) = m_nc (SVD.m_view svd)"
  then show "\<exists>w'. SVD_solve svd b x w = Inr (0, svd, w')"
    using SVD_solve_square [OF sized pos(1) _ fits one_neq_zero, of b x w] by simp
next
  fix y1 :: "'a list"
  assume "length y1 = nat (m_nr (SVD.m_view svd))"
  moreover have "length (m_s svd) = nat (min (m_nr (SVD.m_view svd)) (m_nc (SVD.m_view svd)))"
    using sized by (simp add: SVD_sized_def)
  ultimately show "SVD_solve_loop (nat (m_nr (SVD.m_view svd))) (m_s svd) y1 = Inl OutOfBounds
                  \<longleftrightarrow> m_nc (SVD.m_view svd) < m_nr (SVD.m_view svd)"
    unfolding SVD_solve_loop_closed using pos by auto
qed

lemma sized_examples: "SVD_sized dense_svd" "SVD_sized wide_svd" "SVD_sized singular_svd"
  by (simp_all add: SVD_sized_def dense_svd_def dense_view_def wide_svd_def singular_svd_def
      int_mul_examples)

theorem SVD_solve_in_bounds_iff_square_witness:
  "(\<exists>w'. SVD_solve dense_svd 8 10 dense_memory = Inr (0, dense_svd, w'))
   \<and> SVD_solve_loop 2 (m_s dense_svd) [8, 6] \<noteq> Inl OutOfBounds"
proof -
  have pos: "0 < m_nr (SVD.m_view dense_svd)" "0 < m_nc (SVD.m_view dense_svd)"
    and sq: "m_nr (SVD.m_view dense_svd) = m_nc (SVD.m_view dense_svd)"
    and n: "nat (m_nr (SVD.m_view dense_svd)) = 2"
    and fits: "m_nr (SVD.m_view dense_svd) * m_nr (SVD.m_view dense_svd) < 2 ^ 31"
    by (simp_all add: dense_svd_def dense_view_def)
  note t = SVD_solve_in_bounds_iff_square [OF sized_examples(1) pos fits, of 8 10 dense_memory]
  have 1: "\<exists>w'. SVD_solve dense_svd 8 10 dense_memory = Inr (0, dense_svd, w')"
    using t sq by blast
  have "\<forall>y1. length y1 = nat (m_nr (SVD.m_view dense_svd)) \<longrightarrow>
               (SVD_solve_loop (nat (m_nr (SVD.m_view dense_svd))) (m_s dense_svd) y1 = Inl OutOfBounds
                  \<longleftrightarrow> m_nc (SVD.m_view dense_svd) < m_nr (SVD.m_view dense_svd))"
    using t by blast
  from this [rule_format, of "[8, 6]"] have 2: "SVD_solve_loop 2 (m_s dense_svd) [8, 6] \<noteq> Inl OutOfBounds"
    unfolding n using sq by simp
  show ?thesis
    using 1 2 by (intro conjI)
qed

text \<open>
  C8 as stated fails for a view with fewer rows than columns: on the \<open>SVD\<close> of a 1-by-2
  view, \<open>solve\<close> reads out of bounds.
\<close>

theorem SVD_solve_wide_out_of_bounds:
  "SVD_sized wide_svd
   \<and> m_nr (SVD.m_view wide_svd) = 1 \<and> m_nc (SVD.m_view wide_svd) = 2
   \<and> SVD_solve wide_svd 8 10 dense_memory = Inl OutOfBounds"
  by (simp add: sized_examples)
     (simp add: SVD_solve_def wide_svd_def dense_memory_def memory_of_def Let_def
      buffer_factory_def gemv_def gemv_T_def gemv_scale_def read_range_def SVD_solve_loop_def
      upt_conv_Cons)


section \<open>What \<open>SVD::solve\<close> computes\<close>


lemma read_write_range: "read_range (write_range h p vs) p (length vs) = vs"
  by (rule nth_equalityI) (simp_all add: read_range_def write_range_def)

lemma gemv_T_old_y:
  "length y = n \<Longrightarrow> length y' = n \<Longrightarrow>
   gemv_T m n alpha a lda x 0 y = gemv_T m n alpha a lda x 0 y'"
  by (simp add: gemv_T_def gemv_scale_def)





lemma all_less_two: "(\<forall>i<2::nat. P i) \<longleftrightarrow> P 0 \<and> P 1"
  by (auto simp: less_2_cases_iff)

lemma lessThan_two: "{..<2::nat} = {0, 1}"
  by auto




lemma singular_example_min_norm:
  fixes x :: real
  shows "(0 * x - 1)\<^sup>2 = (0 * 0 - 1)\<^sup>2" and "\<bar>0\<bar> \<le> \<bar>x\<bar>"
  by simp_all



section \<open>The condition number after \<open>factorize\<close>\<close>

lemma SVD_factorize_condition_number:
  assumes "SVD_factorize be svd w = Inr (info, svd', w')"
  shows "m_condition_number svd' =
           \<bar>m_s svd' ! 0 / m_s svd' ! nat (min (m_nr (SVD.m_view svd)) (m_nc (SVD.m_view svd)) - 1)\<bar>"
    and "0 < min (m_nr (SVD.m_view svd)) (m_nc (SVD.m_view svd))"
    and "length (m_s svd') = length (m_s svd)"
  using assms
  by (auto simp: SVD_factorize_def Let_def split_beta split: if_splits)

lemma descending_Max_Min:
  fixes s :: "('a::linorder) list"
  assumes "sorted_wrt (\<ge>) s" and "s \<noteq> []"
  shows "Max (set s) = s ! 0" and "Min (set s) = s ! (length s - 1)"
proof -
  have le: "s ! j \<le> s ! i" if "i \<le> j" "j < length s" for i j
    using assms(1) that by (cases "i = j") (auto simp: sorted_wrt_iff_nth_less)
  have len: "0 < length s"
    using assms(2) by simp
  show "Max (set s) = s ! 0"
  proof (rule Max_eqI)
    show "finite (set s)" by simp
    show "s ! 0 \<in> set s" using len by simp
    fix y assume "y \<in> set s"
    then obtain j where "j < length s" "y = s ! j"
      by (auto simp: in_set_conv_nth)
    then show "y \<le> s ! 0"
      using le [of 0 j] by simp
  qed
  show "Min (set s) = s ! (length s - 1)"
  proof (rule Min_eqI)
    show "finite (set s)" by simp
    show "s ! (length s - 1) \<in> set s" using len by simp
    fix y assume "y \<in> set s"
    then obtain j where "j < length s" "y = s ! j"
      by (auto simp: in_set_conv_nth)
    then show "s ! (length s - 1) \<le> y"
      using le [of j "length s - 1"] len by simp
  qed
qed

lemma SVD_solve_ignores_condition_number:
  "SVD_solve (svd\<lparr>m_condition_number := c\<rparr>) b x w =
     (case SVD_solve svd b x w of
        Inl e \<Rightarrow> Inl e
      | Inr (st, svd', w') \<Rightarrow> Inr (st, svd'\<lparr>m_condition_number := c\<rparr>, w'))"
  by (simp add: SVD_solve_def Let_def split_beta split: sum.splits)

lemma xabs_ratio: "0 \<le> a \<Longrightarrow> 0 \<le> b \<Longrightarrow> \<bar>Fin a / Fin b\<bar> = Fin a / Fin b"
  by (simp add: xreal_arith)

lemma SVD_factorize_rank_one_example:
  "SVD_factorize backend_xdiagonal (fst (SVD_ctor backend_xdiagonal dense_view rank_one_memory))
      (snd (SVD_ctor backend_xdiagonal dense_view rank_one_memory)) =
     Inr (0, rank_one_svd,
          \<lparr>cells = write_range (cells rank_one_memory) 0 [Fin 4, Fin 0, Fin 0, Fin 0],
           allocs = [2, 4, 4, 10]\<rparr>)"
  by (simp add: SVD_factorize_def SVD_ctor_def backend_xdiagonal_def identity_matrix_def
      rank_one_svd_def rank_one_memory_def memory_of_def dense_view_def
      Let_def buffer_factory_def overwrite_def read_range_def
      int_mul_examples upt_conv_Cons xreal_arith)

lemma xreal_condition_number:
  assumes fact: "SVD_factorize xbe xsvd xw = Inr (xinfo, xsvd', xw')"
    and size: "length (m_s xsvd) = nat (min (m_nr (SVD.m_view xsvd)) (m_nc (SVD.m_view xsvd)))"
    and xs: "m_s xsvd' = map Fin \<sigma>s"
    and desc: "sorted_wrt (\<ge>) \<sigma>s"
    and nonneg: "\<forall>\<sigma> \<in> set \<sigma>s. 0 \<le> \<sigma>"
  shows "m_condition_number xsvd' =
           m_s xsvd' ! 0 / m_s xsvd' ! nat (min (m_nr (SVD.m_view xsvd)) (m_nc (SVD.m_view xsvd)) - 1)"
    and "m_condition_number xsvd' = Fin (Max (set \<sigma>s)) / Fin (Min (set \<sigma>s))"
    and "0 < Min (set \<sigma>s) \<longrightarrow>
           m_condition_number xsvd' = Fin (Max (set \<sigma>s) / Min (set \<sigma>s))"
    and "Min (set \<sigma>s) = 0 \<and> 0 < Max (set \<sigma>s) \<longrightarrow> m_condition_number xsvd' = PInf"
proof -
  let ?k = "min (m_nr (SVD.m_view xsvd)) (m_nc (SVD.m_view xsvd))"
  note f = SVD_factorize_condition_number [OF fact]
  have len: "length \<sigma>s = nat ?k"
    using f(3) size xs by (metis length_map)
  have last: "nat (?k - 1) = length \<sigma>s - 1" and ne: "\<sigma>s \<noteq> []"
    using len f(2) by auto
  have lt: "0 < length \<sigma>s" "length \<sigma>s - 1 < length \<sigma>s"
    using ne by simp_all
  have s0: "m_s xsvd' ! 0 = Fin (\<sigma>s ! 0)"
    and sk: "m_s xsvd' ! nat (?k - 1) = Fin (\<sigma>s ! (length \<sigma>s - 1))"
    unfolding xs last using lt by simp_all
  have in0: "0 \<le> \<sigma>s ! 0" and ink: "0 \<le> \<sigma>s ! (length \<sigma>s - 1)"
    using nonneg lt by (simp_all del: One_nat_def)
  show 1: "m_condition_number xsvd' = m_s xsvd' ! 0 / m_s xsvd' ! nat (?k - 1)"
    unfolding f(1) s0 sk by (rule xabs_ratio [OF in0 ink])
  show 2: "m_condition_number xsvd' = Fin (Max (set \<sigma>s)) / Fin (Min (set \<sigma>s))"
    unfolding 1 s0 sk descending_Max_Min [OF desc ne] ..
  show "0 < Min (set \<sigma>s) \<longrightarrow>
           m_condition_number xsvd' = Fin (Max (set \<sigma>s) / Min (set \<sigma>s))"
    unfolding 2 by (simp add: xreal_arith)
  show "Min (set \<sigma>s) = 0 \<and> 0 < Max (set \<sigma>s) \<longrightarrow> m_condition_number xsvd' = PInf"
    unfolding 2 by (simp add: xreal_arith)
qed

lemma field_condition_number:
  fixes svd :: "('a::linordered_field) SVD"
  assumes fact: "SVD_factorize be svd w = Inr (info, svd', w')"
    and size: "length (m_s svd) = nat (min (m_nr (SVD.m_view svd)) (m_nc (SVD.m_view svd)))"
    and desc: "sorted_wrt (\<ge>) (m_s svd')"
    and pos: "\<forall>\<sigma> \<in> set (m_s svd'). 0 < \<sigma>"
  shows "m_condition_number svd' =
           m_s svd' ! 0 / m_s svd' ! nat (min (m_nr (SVD.m_view svd)) (m_nc (SVD.m_view svd)) - 1)"
    and "m_condition_number svd' = Max (set (m_s svd')) / Min (set (m_s svd'))"
proof -
  let ?k = "min (m_nr (SVD.m_view svd)) (m_nc (SVD.m_view svd))"
  note f = SVD_factorize_condition_number [OF fact]
  have len: "length (m_s svd') = nat ?k"
    using f(3) size by simp
  have last: "nat (?k - 1) = length (m_s svd') - 1" and ne: "m_s svd' \<noteq> []"
    using len f(2) by auto
  have in0: "m_s svd' ! 0 \<in> set (m_s svd')"
    using ne by simp
  have inl: "m_s svd' ! nat (?k - 1) \<in> set (m_s svd')"
    unfolding last using ne by simp
  have "0 < m_s svd' ! 0 / m_s svd' ! nat (?k - 1)"
    using pos in0 inl by (intro divide_pos_pos) blast+
  then have "0 \<le> m_s svd' ! 0 / m_s svd' ! nat (?k - 1)"
    by simp
  then show 1: "m_condition_number svd' = m_s svd' ! 0 / m_s svd' ! nat (?k - 1)"
    unfolding f(1) by (rule abs_of_nonneg)
  show "m_condition_number svd' = Max (set (m_s svd')) / Min (set (m_s svd'))"
    unfolding 1 descending_Max_Min [OF desc ne] last ..
qed

text \<open>
  C4. When \<open>factorize\<close> of an \<open>SVD\<close> returns, and the backend has delivered the singular
  values as its interface promises (nonnegative, in descending order), the stored
  condition number is \<open>s[0] / s[min(m_nr, m_nc) - 1]\<close>, the ratio of the largest to the
  smallest singular value. In exact arithmetic (the instance \<open>svd\<close>, over an ordered
  field) this is stated for positive singular values, where the ratio is a number. Over
  the reals with infinities (the instance \<open>xsvd\<close>) it is stated for every matrix, a
  singular one included: with the smallest singular value 0 and the largest positive the
  ratio, and the stored value, is \<open>+infinity\<close>. \<open>solve\<close> does not read the condition
  number: with any other value in \<open>m_condition_number\<close> it returns the same status and the
  same memory.
\<close>

theorem SVD_factorize_condition_number_ratio:
  fixes svd :: "('a::linordered_field) SVD" and xsvd :: "xreal SVD"
  assumes fact: "SVD_factorize be svd w = Inr (info, svd', w')"
    and size: "length (m_s svd) = nat (min (m_nr (SVD.m_view svd)) (m_nc (SVD.m_view svd)))"
    and desc: "sorted_wrt (\<ge>) (m_s svd')"
    and pos: "\<forall>\<sigma> \<in> set (m_s svd'). 0 < \<sigma>"
    and xfact: "SVD_factorize xbe xsvd xw = Inr (xinfo, xsvd', xw')"
    and xsize: "length (m_s xsvd) = nat (min (m_nr (SVD.m_view xsvd)) (m_nc (SVD.m_view xsvd)))"
    and xs: "m_s xsvd' = map Fin \<sigma>s"
    and xdesc: "sorted_wrt (\<ge>) \<sigma>s"
    and xnonneg: "\<forall>\<sigma> \<in> set \<sigma>s. 0 \<le> \<sigma>"
  shows "m_condition_number svd' =
           m_s svd' ! 0 / m_s svd' ! nat (min (m_nr (SVD.m_view svd)) (m_nc (SVD.m_view svd)) - 1)
         \<and> m_condition_number svd' = Max (set (m_s svd')) / Min (set (m_s svd'))
         \<and> m_condition_number xsvd' =
             m_s xsvd' ! 0
             / m_s xsvd' ! nat (min (m_nr (SVD.m_view xsvd)) (m_nc (SVD.m_view xsvd)) - 1)
         \<and> m_condition_number xsvd' = Fin (Max (set \<sigma>s)) / Fin (Min (set \<sigma>s))
         \<and> (0 < Min (set \<sigma>s) \<longrightarrow>
              m_condition_number xsvd' = Fin (Max (set \<sigma>s) / Min (set \<sigma>s)))
         \<and> (Min (set \<sigma>s) = 0 \<and> 0 < Max (set \<sigma>s) \<longrightarrow> m_condition_number xsvd' = PInf)
         \<and> (\<forall>c b x w2. SVD_solve (svd'\<lparr>m_condition_number := c\<rparr>) b x w2 =
               (case SVD_solve svd' b x w2 of
                  Inl e \<Rightarrow> Inl e
                | Inr (st, r, m) \<Rightarrow> Inr (st, r\<lparr>m_condition_number := c\<rparr>, m)))
         \<and> (\<forall>c b x w2. SVD_solve (xsvd'\<lparr>m_condition_number := c\<rparr>) b x w2 =
               (case SVD_solve xsvd' b x w2 of
                  Inl e \<Rightarrow> Inl e
                | Inr (st, r, m) \<Rightarrow> Inr (st, r\<lparr>m_condition_number := c\<rparr>, m)))"
  using field_condition_number [OF fact size desc pos]
    xreal_condition_number [OF xfact xsize xs xdesc xnonneg]
    SVD_solve_ignores_condition_number [where svd = svd']
    SVD_solve_ignores_condition_number [where svd = xsvd']
  by (intro conjI allI)

text \<open>
  The examples: constructing and factorizing over \<open>diag(4, 2)\<close> gives the singular values
  \<open>(4, 2)\<close> and the condition number \<open>4 / 2\<close>; over \<open>diag(4, 0)\<close> it gives \<open>(4, 0)\<close> and
  the condition number \<open>4 / 0\<close>, which is \<open>+infinity\<close>.
\<close>

theorem SVD_factorize_condition_number_ratio_witness:
  "(case SVD_factorize backend_diagonal (fst (SVD_ctor backend_diagonal dense_view dense_memory))
           (snd (SVD_ctor backend_diagonal dense_view dense_memory)) of
      Inl e \<Rightarrow> False
    | Inr (info, svd', w') \<Rightarrow>
        m_s svd' = [4, 2] \<and> m_condition_number svd' = 4 / 2
        \<and> m_condition_number svd' = Max {4, 2} / Min {4, 2})
   \<and> (case SVD_factorize backend_xdiagonal
              (fst (SVD_ctor backend_xdiagonal dense_view rank_one_memory))
              (snd (SVD_ctor backend_xdiagonal dense_view rank_one_memory)) of
         Inl e \<Rightarrow> False
       | Inr (info, svd', w') \<Rightarrow>
           m_s svd' = [Fin 4, Fin 0] \<and> m_condition_number svd' = Fin 4 / Fin 0
           \<and> m_condition_number svd' = PInf)"
proof -
  let ?svd = "fst (SVD_ctor backend_diagonal dense_view dense_memory)"
  let ?xsvd = "fst (SVD_ctor backend_xdiagonal dense_view rank_one_memory)"
  have size: "length (m_s ?svd) = nat (min (m_nr (SVD.m_view ?svd)) (m_nc (SVD.m_view ?svd)))"
    unfolding SVD_ctor_dense_example by (simp add: dense_view_def)
  have k: "nat (min (m_nr (SVD.m_view ?svd)) (m_nc (SVD.m_view ?svd)) - 1) = 1"
    unfolding SVD_ctor_dense_example by (simp add: dense_view_def)
  have s: "m_s dense_svd = [4, 2]"
    by (simp add: dense_svd_def)
  have desc: "sorted_wrt (\<ge>) (m_s dense_svd)" and pos: "\<forall>\<sigma> \<in> set (m_s dense_svd). 0 < \<sigma>"
    unfolding s by simp_all
  have xsize: "length (m_s ?xsvd) = nat (min (m_nr (SVD.m_view ?xsvd)) (m_nc (SVD.m_view ?xsvd)))"
    and xk: "nat (min (m_nr (SVD.m_view ?xsvd)) (m_nc (SVD.m_view ?xsvd)) - 1) = 1"
    by (simp_all add: SVD_ctor_def Let_def split_beta buffer_factory_def dense_view_def)
  have xs: "m_s rank_one_svd = map Fin [4, 0]"
    by (simp add: rank_one_svd_def)
  have xdesc: "sorted_wrt (\<ge>) [4, 0::real]" and xnonneg: "\<forall>\<sigma> \<in> set [4, 0::real]. 0 \<le> \<sigma>"
    by simp_all
  note t = SVD_factorize_condition_number_ratio [OF SVD_factorize_dense_example size desc pos
      SVD_factorize_rank_one_example xsize xs xdesc xnonneg]
  have "m_condition_number dense_svd = 4 / 2"
    and "m_condition_number dense_svd = Max {4, 2} / Min {4, 2}"
    using t unfolding k s by simp_all
  moreover have "m_condition_number rank_one_svd = Fin 4 / Fin 0"
    using t [THEN conjunct2, THEN conjunct2, THEN conjunct1] unfolding xk xs by simp
  moreover have "m_condition_number rank_one_svd = PInf"
    using t [THEN conjunct2, THEN conjunct2, THEN conjunct2, THEN conjunct2, THEN conjunct2,
        THEN conjunct1]
    by simp
  ultimately show ?thesis
    unfolding SVD_factorize_dense_example SVD_factorize_rank_one_example
    using s xs by simp
qed


section \<open>\<open>BandedLU\<close> against \<open>DenseLU\<close>\<close>

lemma std_copy_inside:
  assumes "separate first N d N" and "n \<le> N" and "i < n"
  shows "std_copy h first n d (d + i) = h (first + i)"
  using assms(2,3)
proof (induction n)
  case 0
  then show ?case by simp
next
  case (Suc n)
  have out: "std_copy h first n d (first + n) = h (first + n)"
    using assms(1) Suc.prems(1) by (intro std_copy_outside) (auto simp: separate_def)
  show ?case
  proof (cases "i = n")
    case True
    then show ?thesis
      using out unfolding std_copy_def fold_upt_Suc by simp
  next
    case False
    then have "std_copy h first n d (d + i) = h (first + i)"
      using Suc by simp
    then show ?thesis
      using False unfolding std_copy_def fold_upt_Suc by simp
  qed
qed

lemma read_std_copy:
  "separate first n d n \<Longrightarrow> read_range (std_copy h first n d) d n = read_range h first n"
  by (simp add: read_range_def std_copy_inside [where N = n])

lemma read_range_outside_write:
  "separate p (length vs) q k \<Longrightarrow> read_range (write_range h p vs) q k = read_range h q k"
  by (auto simp: read_range_def write_range_def separate_def)

lemma read_range_outside_copy:
  "separate d n q k \<Longrightarrow> read_range (std_copy h first n d) q k = read_range h q k"
  by (auto simp: read_range_def separate_def intro!: std_copy_outside)

lemma overwrite_same_length: "length vs = length buf \<Longrightarrow> overwrite buf vs = vs"
  by (simp add: overwrite_def)

lemma separate_sym: "separate p n q m \<Longrightarrow> separate q m p n"
  by (auto simp: separate_def)

lemma DenseLU_run_solution:
  fixes be :: "('a::comm_semiring_0) backend"
  assumes con: "getrf_getrs_contract be"
    and dv: "m_nr dv = n" "m_nc dv = n" "n \<le> m_ld dv" "0 < n"
    and sep: "separate x (nat n) (m_data dv) (nat (m_ld dv * n))"
      "separate b (nat n) (m_data dv) (nat (m_ld dv * n))"
      "separate b (nat n) x (nat n)"
    and ok: "fst (DenseLU_run be dv b x w) = 0"
  shows "unique_solution (nat n)
           (dense_entry (read_range (cells w) (m_data dv) (nat (m_ld dv * n))) (nat (m_ld dv)))
           (read_range (cells (snd (snd (DenseLU_run be dv b x w)))) x (nat n))
           (read_range (cells w) b (nat n))"
proof -
  define na where "na = nat (m_ld dv * n)"
  define a where "a = read_range (cells w) (m_data dv) na"
  define bs where "bs = read_range (cells w) b (nat n)"
  obtain a' ipiv info where f: "getrf be n n a (m_ld dv) = (a', ipiv, info)"
    by (metis prod_cases3)
  have info: "info = 0"
    using ok f
    by (simp add: DenseLU_run_def DenseLU_ctor_def DenseLU_factorize_def DenseLU_solve_def
        buffer_factory_def Let_def split_beta dv a_def na_def)
  define xs where "xs = take (nat n) (fst (getrs be CHR ''N'' n 1 a' (m_ld dv) ipiv bs n))"
  have c: "length a' = na" "length ipiv = nat n"
    "unique_solution (nat n) (dense_entry a (nat (m_ld dv))) xs bs"
    using con dv f info unfolding getrf_getrs_contract_def xs_def
    by (metis a_def bs_def length_read_range na_def)+
  define h1 where "h1 = write_range (cells w) (m_data dv) a'"
  define h2 where "h2 = std_copy h1 b (nat n) x"
  have "read_range h1 (m_data dv) na = a'"
    unfolding h1_def using read_write_range [of "cells w" "m_data dv" a'] c(1) by simp
  then have r1: "read_range h2 (m_data dv) na = a'"
    unfolding h2_def using sep(1) by (simp add: read_range_outside_copy na_def)
  have r2: "read_range h2 x (nat n) = bs"
    unfolding h2_def h1_def bs_def using sep(2,3) c(1)
    by (simp add: read_std_copy read_range_outside_write separate_sym na_def)
  have lx: "length xs = nat n"
    using c(3) by (simp add: unique_solution_def)
  have run: "cells (snd (snd (DenseLU_run be dv b x w))) = write_range h2 x xs"
    using f info c(1,2) r1 r2
    by (simp add: DenseLU_run_def DenseLU_ctor_def DenseLU_factorize_def DenseLU_solve_def
        buffer_factory_def Let_def split_beta dv a_def [symmetric] na_def [symmetric]
        overwrite_same_length h1_def [symmetric] h2_def [symmetric] xs_def)
  have "read_range (write_range h2 x xs) x (nat n) = xs"
    using read_write_range [of h2 x xs] lx by simp
  then show ?thesis
    using c(3) unfolding run a_def bs_def na_def by simp
qed


lemma BandedLU_run_solution:
  fixes be :: "('a::comm_semiring_0) backend"
  assumes con: "gbtrf_gbtrs_contract be"
    and bv: "m_nr bv = n" "m_nc bv = n" "0 < n" "0 \<le> m_kl bv" "0 \<le> m_ku bv"
      "2 * m_kl bv + m_ku bv + 1 \<le> m_ld bv"
    and sep: "separate x (nat n) (m_data bv) (nat (m_ld bv * n))"
      "separate b (nat n) (m_data bv) (nat (m_ld bv * n))"
      "separate b (nat n) x (nat n)"
    and ok: "fst (BandedLU_run be bv b x w) = 0"
  shows "unique_solution (nat n)
           (band_entry (nat (m_kl bv)) (nat (m_ku bv))
              (read_range (cells w) (m_data bv) (nat (m_ld bv * n))) (nat (m_ld bv)))
           (read_range (cells (snd (snd (BandedLU_run be bv b x w)))) x (nat n))
           (read_range (cells w) b (nat n))"
proof -
  define na where "na = nat (m_ld bv * n)"
  define a where "a = read_range (cells w) (m_data bv) na"
  define bs where "bs = read_range (cells w) b (nat n)"
  obtain a' ipiv info where f: "gbtrf be n n (m_kl bv) (m_ku bv) a (m_ld bv) = (a', ipiv, info)"
    by (metis prod_cases3)
  have info: "info = 0"
    using ok f
    by (simp add: BandedLU_run_def BandedLU_ctor_def BandedLU_factorize_def BandedLU_solve_def
        buffer_factory_def Let_def split_beta bv a_def na_def)
  define xs where
    "xs = take (nat n) (fst (gbtrs be CHR ''N'' n (m_kl bv) (m_ku bv) 1 a' (m_ld bv) ipiv bs n))"
  have c: "length a' = na" "length ipiv = nat n"
    "unique_solution (nat n) (band_entry (nat (m_kl bv)) (nat (m_ku bv)) a (nat (m_ld bv))) xs bs"
    using con bv f info unfolding gbtrf_gbtrs_contract_def xs_def
    by (metis a_def bs_def length_read_range na_def)+
  define h1 where "h1 = write_range (cells w) (m_data bv) a'"
  define h2 where "h2 = std_copy h1 b (nat n) x"
  have "read_range h1 (m_data bv) na = a'"
    unfolding h1_def using read_write_range [of "cells w" "m_data bv" a'] c(1) by simp
  then have r1: "read_range h2 (m_data bv) na = a'"
    unfolding h2_def using sep(1) by (simp add: read_range_outside_copy na_def)
  have r2: "read_range h2 x (nat n) = bs"
    unfolding h2_def h1_def bs_def using sep(2,3) c(1)
    by (simp add: read_std_copy read_range_outside_write separate_sym na_def)
  have lx: "length xs = nat n"
    using c(3) by (simp add: unique_solution_def)
  have run: "cells (snd (snd (BandedLU_run be bv b x w))) = write_range h2 x xs"
    using f info c(1,2) r1 r2
    by (simp add: BandedLU_run_def BandedLU_ctor_def BandedLU_factorize_def BandedLU_solve_def
        buffer_factory_def Let_def split_beta bv a_def [symmetric] na_def [symmetric]
        overwrite_same_length h1_def [symmetric] h2_def [symmetric] xs_def)
  have "read_range (write_range h2 x xs) x (nat n) = xs"
    using read_write_range [of h2 x xs] lx by simp
  then show ?thesis
    using c(3) unfolding run a_def bs_def na_def by simp
qed

lemma solves_cong:
  assumes "\<forall>i<n. \<forall>k<n. A i k = A' i k"
  shows "solves n A y b = solves n A' y b"
proof -
  have "(\<Sum>k<n. A i k * y ! k) = (\<Sum>k<n. A' i k * y ! k)" if "i < n" for i
    by (rule sum.cong) (use assms that in auto)
  then show ?thesis
    by (simp add: solves_def)
qed

text \<open>
  C7. For a tridiagonal system (\<open>m_kl = m_ku = 1\<close>, \<open>n\<close> rows and columns, packed with
  at least four storage rows) and any right-hand side \<open>b\<close>, constructing a \<open>BandedLU\<close>
  over the packed view, factorizing and solving leaves in \<open>x\<close> the same vector as
  constructing a \<open>DenseLU\<close> over the densified equivalent of the matrix, factorizing and
  solving with the same \<open>b\<close>. The backend keeps the contract of its LU routines, both
  factorizations report status 0, and in each memory the storage of the matrix, \<open>b\<close> and
  \<open>x\<close> do not overlap.
\<close>

theorem BandedLU_matches_DenseLU:
  fixes be :: "('a::comm_semiring_0) backend"
  assumes con: "getrf_getrs_contract be" "gbtrf_gbtrs_contract be"
    and bv: "m_kl bv = 1" "m_ku bv = 1" "m_nr bv = n" "m_nc bv = n" "0 < n" "4 \<le> m_ld bv"
    and dense: "densified bv wb dv wd"
    and rhs: "read_range (cells wd) b_d (nat n) = read_range (cells wb) b_b (nat n)"
    and sep_b: "separate x_b (nat n) (m_data bv) (nat (m_ld bv * n))"
      "separate b_b (nat n) (m_data bv) (nat (m_ld bv * n))"
      "separate b_b (nat n) x_b (nat n)"
    and sep_d: "separate x_d (nat n) (m_data dv) (nat (m_ld dv * n))"
      "separate b_d (nat n) (m_data dv) (nat (m_ld dv * n))"
      "separate b_d (nat n) x_d (nat n)"
    and ok: "fst (BandedLU_run be bv b_b x_b wb) = 0" "fst (DenseLU_run be dv b_d x_d wd) = 0"
  shows "read_range (cells (snd (snd (BandedLU_run be bv b_b x_b wb)))) x_b (nat n) =
         read_range (cells (snd (snd (DenseLU_run be dv b_d x_d wd)))) x_d (nat n)"
proof -
  define A where "A = band_entry (nat (m_kl bv)) (nat (m_ku bv))
              (read_range (cells wb) (m_data bv) (nat (m_ld bv * n))) (nat (m_ld bv))"
  define D where "D = dense_entry (read_range (cells wd) (m_data dv) (nat (m_ld dv * n))) (nat (m_ld dv))"
  define bs where "bs = read_range (cells wb) b_b (nat n)"
  define xb where "xb = read_range (cells (snd (snd (BandedLU_run be bv b_b x_b wb)))) x_b (nat n)"
  define xd where "xd = read_range (cells (snd (snd (DenseLU_run be dv b_d x_d wd)))) x_d (nat n)"
  have dv: "m_nr dv = n" "m_nc dv = n" "n \<le> m_ld dv"
    using dense bv by (simp_all add: densified_def)
  have ub: "unique_solution (nat n) A xb bs"
    unfolding A_def xb_def bs_def
    by (rule BandedLU_run_solution [OF con(2) bv(3,4,5) _ _ _ sep_b ok(1)]) (use bv in simp_all)
  have ud: "unique_solution (nat n) D xd bs"
    unfolding D_def xd_def bs_def rhs [symmetric]
    by (rule DenseLU_run_solution [OF con(1) dv bv(5) sep_d ok(2)])
  have "D i k = A i k" if "i < nat n" "k < nat n" for i k
  proof -
    have "i + k * nat (m_ld dv) < nat (m_ld dv * n)"
    proof -
      have "i < nat (m_ld dv)" using that(1) dv(3) by simp
      then have "i + k * nat (m_ld dv) < (k + 1) * nat (m_ld dv)" by simp
      also have "\<dots> \<le> nat n * nat (m_ld dv)"
        using that(2) by (intro mult_le_mono1) simp
      also have "\<dots> = nat (m_ld dv * n)"
        using bv(5) dv(3) by (simp add: nat_mult_distrib mult.commute)
      finally show ?thesis .
    qed
    then have "D i k = cells wd (m_data dv + (i + k * nat (m_ld dv)))"
      by (simp add: D_def dense_entry_def read_range_def)
    then show ?thesis
      using dense that bv by (simp add: densified_def A_def)
  qed
  then have "solves (nat n) A xd bs"
    using ud solves_cong [of "nat n" D A xd bs] by (simp add: unique_solution_def)
  moreover have "length xd = nat n"
    using ud by (simp add: unique_solution_def)
  ultimately have "xd = xb"
    using ub unfolding unique_solution_def by blast
  then show ?thesis
    unfolding xb_def xd_def by simp
qed

lemma cramer_row:
  fixes d :: rat
  assumes "d \<noteq> 0" and "a * p + c * q = r * d"
  shows "a * (p / d) + c * (q / d) = r"
proof -
  have "a * (p / d) + c * (q / d) = (a * p + c * q) / d"
    by (simp add: add_divide_distrib)
  then show ?thesis
    using assms by simp
qed

lemma cramer2_unique:
  assumes "det2 A \<noteq> 0"
  shows "unique_solution 2 A (cramer2 A b) b"
proof -
  have "A 0 0 * ((A 1 1 * b ! 0 - A 0 1 * b ! 1) / det2 A)
        + A 0 1 * ((A 0 0 * b ! 1 - A 1 0 * b ! 0) / det2 A) = b ! 0"
    by (rule cramer_row [OF assms]) (simp add: det2_def algebra_simps)
  moreover have "A 1 0 * ((A 1 1 * b ! 0 - A 0 1 * b ! 1) / det2 A)
        + A 1 1 * ((A 0 0 * b ! 1 - A 1 0 * b ! 0) / det2 A) = b ! 1"
    by (rule cramer_row [OF assms]) (simp add: det2_def algebra_simps)
  ultimately have s: "solves 2 A (cramer2 A b) b"
    by (simp add: solves_def all_less_two lessThan_two cramer2_def)
  have u: "y = cramer2 A b" if l: "length y = 2" and y: "solves 2 A y b" for y
  proof -
    obtain y0 y1 where yy: "y = [y0, y1]"
      using l by (metis (no_types) One_nat_def Suc_1 length_0_conv length_Suc_conv)
    have e0: "A 0 0 * y0 + A 0 1 * y1 = b ! 0" and e1: "A 1 0 * y0 + A 1 1 * y1 = b ! 1"
      using y by (simp_all add: solves_def all_less_two lessThan_two yy)
    have "det2 A * y0 = A 1 1 * b ! 0 - A 0 1 * b ! 1"
      unfolding e0 [symmetric] e1 [symmetric] det2_def by (simp add: algebra_simps)
    then have 0: "y0 = (A 1 1 * b ! 0 - A 0 1 * b ! 1) / det2 A"
      using assms by (simp add: field_simps)
    have "det2 A * y1 = A 0 0 * b ! 1 - A 1 0 * b ! 0"
      unfolding e0 [symmetric] e1 [symmetric] det2_def by (simp add: algebra_simps)
    then have 1: "y1 = (A 0 0 * b ! 1 - A 1 0 * b ! 0) / det2 A"
      using assms by (simp add: field_simps)
    show ?thesis
      unfolding yy cramer2_def using 0 1 by simp
  qed
  show ?thesis
    unfolding unique_solution_def using s u by (simp add: cramer2_def)
qed

lemma backend_two_contract:
  "getrf_getrs_contract backend_two" "gbtrf_gbtrs_contract backend_two"
proof -
  have l: "take 2 (cramer2 A b) = cramer2 A b" for A b
    by (simp add: cramer2_def)
  show "getrf_getrs_contract backend_two"
    unfolding getrf_getrs_contract_def backend_two_def
    by (auto simp: l cramer2_unique split: if_splits)
  show "gbtrf_gbtrs_contract backend_two"
    unfolding gbtrf_gbtrs_contract_def backend_two_def
    by (auto simp: l cramer2_unique split: if_splits)
qed

lemma tridiagonal_densified:
  "densified banded_view tridiagonal_banded_memory dense_view tridiagonal_dense_memory"
  by (simp add: densified_def banded_view_def dense_view_def tridiagonal_banded_memory_def
      tridiagonal_dense_memory_def memory_of_def band_entry_def read_range_def all_less_two
      upt_conv_Cons)

lemma tridiagonal_dense_run:
  "fst (DenseLU_run backend_two dense_view 8 10 tridiagonal_dense_memory) = 0"
  "read_range (cells (snd (snd (DenseLU_run backend_two dense_view 8 10 tridiagonal_dense_memory))))
     10 2 = [2, 1]"
  by (simp_all add: DenseLU_run_def DenseLU_ctor_def DenseLU_factorize_def DenseLU_solve_def
      buffer_factory_def Let_def split_beta backend_two_def dense_view_def
      tridiagonal_dense_memory_def memory_of_def read_range_def write_range_def std_copy_def
      overwrite_def dense_entry_def det2_def cramer2_def upt_conv_Cons)

lemma tridiagonal_banded_run:
  "fst (BandedLU_run backend_two banded_view 8 10 tridiagonal_banded_memory) = 0"
  by (simp_all add: BandedLU_run_def BandedLU_ctor_def BandedLU_factorize_def BandedLU_solve_def
      buffer_factory_def Let_def split_beta backend_two_def banded_view_def
      tridiagonal_banded_memory_def memory_of_def read_range_def write_range_def std_copy_def
      overwrite_def band_entry_def det2_def cramer2_def upt_conv_Cons)

text \<open>
  The example: with the backend for 2-by-2 systems both strategies factorize the matrix
  with the rows \<open>(4, 1)\<close> and \<open>(2, 3)\<close> with status 0 and solve \<open>b = (9, 7)\<close> to
  \<open>x = (2, 1)\<close>.
\<close>

theorem BandedLU_matches_DenseLU_witness:
  "fst (BandedLU_run backend_two banded_view 8 10 tridiagonal_banded_memory) = 0
   \<and> fst (DenseLU_run backend_two dense_view 8 10 tridiagonal_dense_memory) = 0
   \<and> read_range (cells (snd (snd (BandedLU_run backend_two banded_view 8 10
        tridiagonal_banded_memory)))) 10 2 = [2, 1]
   \<and> read_range (cells (snd (snd (DenseLU_run backend_two dense_view 8 10
        tridiagonal_dense_memory)))) 10 2 = [2, 1]"
proof -
  have bv: "m_kl banded_view = 1" "m_ku banded_view = 1" "m_nr banded_view = 2"
    "m_nc banded_view = 2" "(0::int) < 2" "4 \<le> m_ld banded_view"
    by (simp_all add: banded_view_def)
  have rhs: "read_range (cells tridiagonal_dense_memory) 8 (nat 2) =
             read_range (cells tridiagonal_banded_memory) 8 (nat 2)"
    by (simp add: tridiagonal_dense_memory_def tridiagonal_banded_memory_def memory_of_def
        read_range_def upt_conv_Cons)
  have sep_b: "separate 10 (nat 2) (m_data banded_view) (nat (m_ld banded_view * 2))"
    "separate 8 (nat 2) (m_data banded_view) (nat (m_ld banded_view * 2))"
    "separate 8 (nat 2) 10 (nat 2)"
    by (simp_all add: separate_def banded_view_def)
  have sep_d: "separate 10 (nat 2) (m_data dense_view) (nat (m_ld dense_view * 2))"
    "separate 8 (nat 2) (m_data dense_view) (nat (m_ld dense_view * 2))"
    "separate 8 (nat 2) 10 (nat 2)"
    by (simp_all add: separate_def dense_view_def)
  note t = BandedLU_matches_DenseLU [OF backend_two_contract bv tridiagonal_densified rhs
      sep_b sep_d tridiagonal_banded_run tridiagonal_dense_run(1)]
  show ?thesis
    using t tridiagonal_banded_run tridiagonal_dense_run by simp
qed


end
